theory Spec2Isabelle
  imports Complex_Main "HOL-Library.Word" "HOL-Library.Multiset" "HOL-Library.Sublist"
begin

section \<open>JavaScript values\<close>

text \<open>
  The route handler is JavaScript. Its numbers are modelled as exact reals extended with
  the three special values of the language, so that a division by zero and a read past
  the end of an array have the value the language gives them. Rounding is not modelled,
  and \<open>-0\<close> is identified with \<open>+0\<close>: the only division of the program divides by
  a product of square roots, which is never \<open>-0\<close>.
\<close>

datatype number = Num real | PosInfinity | NegInfinity | NaN

fun js_neg :: "number \<Rightarrow> number" where
  "js_neg (Num x) = Num (- x)"
| "js_neg PosInfinity = NegInfinity"
| "js_neg NegInfinity = PosInfinity"
| "js_neg NaN = NaN"

fun js_add :: "number \<Rightarrow> number \<Rightarrow> number" where
  "js_add NaN _ = NaN"
| "js_add _ NaN = NaN"
| "js_add (Num x) (Num y) = Num (x + y)"
| "js_add PosInfinity NegInfinity = NaN"
| "js_add NegInfinity PosInfinity = NaN"
| "js_add PosInfinity _ = PosInfinity"
| "js_add _ PosInfinity = PosInfinity"
| "js_add NegInfinity _ = NegInfinity"
| "js_add _ NegInfinity = NegInfinity"

definition js_sub :: "number \<Rightarrow> number \<Rightarrow> number" where
  "js_sub x y = js_add x (js_neg y)"

fun js_mul :: "number \<Rightarrow> number \<Rightarrow> number" where
  "js_mul NaN _ = NaN"
| "js_mul _ NaN = NaN"
| "js_mul (Num x) (Num y) = Num (x * y)"
| "js_mul (Num x) i = (if x = 0 then NaN else if 0 < x then i else js_neg i)"
| "js_mul i (Num y) = (if y = 0 then NaN else if 0 < y then i else js_neg i)"
| "js_mul PosInfinity i = i"
| "js_mul NegInfinity i = js_neg i"

fun js_div :: "number \<Rightarrow> number \<Rightarrow> number" where
  "js_div NaN _ = NaN"
| "js_div _ NaN = NaN"
| "js_div (Num x) (Num y) =
     (if y \<noteq> 0 then Num (x / y)
      else if x = 0 then NaN
      else if 0 < x then PosInfinity else NegInfinity)"
| "js_div (Num x) _ = Num 0"
| "js_div i (Num y) = (if 0 \<le> y then i else js_neg i)"
| "js_div _ _ = NaN"

fun js_sqrt :: "number \<Rightarrow> number" where
  "js_sqrt (Num x) = (if x < 0 then NaN else Num (sqrt x))"
| "js_sqrt PosInfinity = PosInfinity"
| "js_sqrt NegInfinity = NaN"
| "js_sqrt NaN = NaN"

text \<open>The relational operators: every comparison with \<open>NaN\<close> is false.\<close>

fun js_lt :: "number \<Rightarrow> number \<Rightarrow> bool" where
  "js_lt NaN _ = False"
| "js_lt _ NaN = False"
| "js_lt (Num x) (Num y) = (x < y)"
| "js_lt _ NegInfinity = False"
| "js_lt PosInfinity _ = False"
| "js_lt _ _ = True"


text \<open>
  \<open>xs[i]\<close> is \<open>undefined\<close> past the end of the array, and \<open>undefined\<close> becomes
  \<open>NaN\<close> where a number is wanted.
\<close>

definition js_index :: "'a list \<Rightarrow> nat \<Rightarrow> 'a option" where
  "js_index xs i = (if i < length xs then Some (xs ! i) else None)"

fun ToNumber :: "number option \<Rightarrow> number" where
  "ToNumber None = NaN"
| "ToNumber (Some x) = x"

text \<open>
  \<open>Array.prototype.reduce\<close> with an initial value: the callback gets the accumulator,
  the element and its index, from left to right.
\<close>

fun reduce_from :: "nat \<Rightarrow> ('b \<Rightarrow> 'a \<Rightarrow> nat \<Rightarrow> 'b) \<Rightarrow> 'b \<Rightarrow> 'a list \<Rightarrow> 'b" where
  "reduce_from i f acc [] = acc"
| "reduce_from i f acc (x # xs) = reduce_from (Suc i) f (f acc x i) xs"

definition reduce :: "('b \<Rightarrow> 'a \<Rightarrow> nat \<Rightarrow> 'b) \<Rightarrow> 'b \<Rightarrow> 'a list \<Rightarrow> 'b" where
  "reduce f z xs = reduce_from 0 f z xs"

section \<open>Cosine similarity\<close>

text \<open>
  \<^verbatim>\<open>
  function cosineSimilarity(vecA, vecB) {
    const dotProduct = vecA.reduce((sum, a, idx) => sum + a * vecB[idx], 0);
    const magnitudeA = Math.sqrt(vecA.reduce((sum, val) => sum + val * val, 0));
    const magnitudeB = Math.sqrt(vecB.reduce((sum, val) => sum + val * val, 0));
    return dotProduct / (magnitudeA * magnitudeB);
  }
  \<close>
\<close>

definition cosineSimilarity :: "number list \<Rightarrow> number list \<Rightarrow> number" where
  "cosineSimilarity vecA vecB =
     (let dotProduct =
            reduce (\<lambda>sum a idx. js_add sum (js_mul a (ToNumber (js_index vecB idx)))) (Num 0) vecA;
          magnitudeA = js_sqrt (reduce (\<lambda>sum val idx. js_add sum (js_mul val val)) (Num 0) vecA);
          magnitudeB = js_sqrt (reduce (\<lambda>sum val idx. js_add sum (js_mul val val)) (Num 0) vecB)
      in js_div dotProduct (js_mul magnitudeA magnitudeB))"



subsection \<open>The two folds\<close>










subsection \<open>Claims about the scoring function\<close>













section \<open>Strings and arrays\<close>

text \<open>
  A JavaScript string is a sequence of UTF-16 code units; \<open>length\<close> counts them.
  \<open>js\<close> writes an ASCII literal as such a string.
\<close>

type_synonym js_string = "16 word list"

definition js :: "string \<Rightarrow> js_string" where
  "js s = map of_char s"

text \<open>\<open>slice(0, n)\<close> and \<open>join(sep)\<close> of arrays.\<close>

definition slice0 :: "nat \<Rightarrow> 'a list \<Rightarrow> 'a list" where
  "slice0 n xs = take n xs"

fun js_join :: "'a list \<Rightarrow> 'a list list \<Rightarrow> 'a list" where
  "js_join sep [] = []"
| "js_join sep [x] = x"
| "js_join sep (x # y # ys) = x @ sep @ js_join sep (y # ys)"

text \<open>
  \<open>Array.prototype.sort(comparefn)\<close>. The comparator's result is read as ECMAScript's
  SortCompare reads it: \<open>NaN\<close> counts as \<open>+0\<close>, a negative value puts the first
  argument first. For a consistent comparator the language fixes the result, the stable
  sort, and every sorting algorithm returns it; the model is the insertion sort that
  puts each element, from left to right, before the first element it must precede.
  For a comparator that is not consistent the order is left to the implementation, and
  nothing below is stated for that case.
\<close>

definition SortCompare :: "('a \<Rightarrow> 'a \<Rightarrow> number) \<Rightarrow> 'a \<Rightarrow> 'a \<Rightarrow> number" where
  "SortCompare comparefn x y = (let v = comparefn x y in if v = NaN then Num 0 else v)"

fun insert_sorted :: "('a \<Rightarrow> 'a \<Rightarrow> number) \<Rightarrow> 'a \<Rightarrow> 'a list \<Rightarrow> 'a list" where
  "insert_sorted comparefn x [] = [x]"
| "insert_sorted comparefn x (y # ys) =
     (if js_lt (SortCompare comparefn x y) (Num 0) then x # y # ys
      else y # insert_sorted comparefn x ys)"

definition array_sort :: "('a \<Rightarrow> 'a \<Rightarrow> number) \<Rightarrow> 'a list \<Rightarrow> 'a list" where
  "array_sort comparefn xs = foldl (\<lambda>acc x. insert_sorted comparefn x acc) [] xs"

section \<open>Database mode: ranking and context assembly\<close>

text \<open>
  A row of the \<open>WebpageEmbedding\<close> table as the query returns it; the embedding column
  arrives as an array of numbers or as text.
\<close>

datatype embedding_column = AsArray "number list" | AsString js_string

record webpage_embedding =
  row_embedding :: embedding_column
  row_content :: js_string
  row_url :: js_string

record document =
  doc_embedding :: "number list"
  doc_content :: js_string
  doc_url :: js_string

record scored =
  sim_content :: js_string
  sim_url :: js_string
  similarity :: number

record source =
  title :: js_string
  link :: js_string

text \<open>\<open>s.split(',')\<close>: the pieces between the separators, one more than there are separators.\<close>

fun split_on :: "'a \<Rightarrow> 'a list \<Rightarrow> 'a list list" where
  "split_on sep [] = [[]]"
| "split_on sep (c # cs) =
     (if c = sep then [] # split_on sep cs
      else (case split_on sep cs of [] \<Rightarrow> [[c]] | p # ps \<Rightarrow> (c # p) # ps))"

text \<open>
  \<^verbatim>\<open>
  typeof row.embedding === 'string'
    ? row.embedding.replace(/[{}]/g, '').split(',').map(Number)
    : row.embedding
  \<close>
  The conversion \<open>Number\<close> of a string to a number is a parameter of the model.
\<close>

definition embeddingArray :: "(js_string \<Rightarrow> number) \<Rightarrow> embedding_column \<Rightarrow> number list" where
  "embeddingArray Number e =
     (case e of
        AsString s \<Rightarrow> map Number (split_on 0x2C (filter (\<lambda>c. c \<noteq> 0x7B \<and> c \<noteq> 0x7D) s))
      | AsArray v \<Rightarrow> v)"

definition documents_of :: "(js_string \<Rightarrow> number) \<Rightarrow> webpage_embedding list \<Rightarrow> document list" where
  "documents_of Number embeddingsData =
     map (\<lambda>row. \<lparr>doc_embedding = embeddingArray Number (row_embedding row),
                  doc_content = row_content row, doc_url = row_url row\<rparr>) embeddingsData"

definition similarities_of :: "number list \<Rightarrow> document list \<Rightarrow> scored list" where
  "similarities_of queryEmbedding documents =
     map (\<lambda>doc. \<lparr>sim_content = doc_content doc, sim_url = doc_url doc,
                  similarity = cosineSimilarity queryEmbedding (doc_embedding doc)\<rparr>) documents"

text \<open>The comparator \<^verbatim>\<open>(a, b) => b.similarity - a.similarity\<close>.\<close>

definition by_similarity :: "scored \<Rightarrow> scored \<Rightarrow> number" where
  "by_similarity a b = js_sub (similarity b) (similarity a)"

definition ranked :: "number list \<Rightarrow> document list \<Rightarrow> scored list" where
  "ranked queryEmbedding documents =
     array_sort by_similarity (similarities_of queryEmbedding documents)"

definition topDocuments :: "number list \<Rightarrow> document list \<Rightarrow> scored list" where
  "topDocuments queryEmbedding documents = slice0 4 (ranked queryEmbedding documents)"

definition contextText :: "number list \<Rightarrow> document list \<Rightarrow> js_string" where
  "contextText queryEmbedding documents =
     js_join [0x0A, 0x0A] (map sim_content (topDocuments queryEmbedding documents))"

definition sourcesPayload :: "number list \<Rightarrow> document list \<Rightarrow> source list" where
  "sourcesPayload queryEmbedding documents =
     map (\<lambda>doc. \<lparr>title = sim_content doc, link = sim_url doc\<rparr>)
       (topDocuments queryEmbedding documents)"

text \<open>The string handed to the language model: the context, then the query.\<close>

definition database_input :: "js_string \<Rightarrow> number list \<Rightarrow> document list \<Rightarrow> js_string" where
  "database_input message queryEmbedding documents =
     js ''Context: '' @ contextText queryEmbedding documents
       @ [0x0A, 0x0A] @ js ''Query: '' @ message"



subsection \<open>The comparator on numbers\<close>






subsection \<open>The sort is a stable sort\<close>












section \<open>The persistence store and the language-model client\<close>

text \<open>
  The handler talks to three services: the \<open>message_history\<close> table (through the
  Supabase client), the OpenAI API, and the web. The table is state: its rows, the next
  identifier of its serial column, and a journal of the writes that reached it, in order.
  Whether the store answers a call with an error is not decided by the handler: the
  world holds the answers to the coming calls (\<open>True\<close> for an error; when the list is
  used up the store answers every call). The requests made to the chat endpoint are
  recorded as well.
\<close>

datatype error = DbError | TypeError | ApiError | FetchError | Timeout | SyntaxError

datatype payload =
    Query js_string
  | Sources "source list"
  | VectorCreation js_string
  | GPT js_string
  | Heading js_string
  | FollowUp js_string

datatype db_event = Inserted nat payload | Updated nat payload

record chat_request =
  model :: string
  system_content :: js_string
  user_content :: js_string
  streaming :: bool

record world =
  table :: "(nat \<times> payload) list"
  next_id :: nat
  db_errors :: "bool list"
  journal :: "db_event list"
  chat_log :: "chat_request list"

text \<open>
  An asynchronous computation either returns a value or throws, and changes the world;
  \<open>await m f\<close> is \<^verbatim>\<open>const x = await m; f(x)\<close>, and an exception skips what follows.
\<close>

type_synonym 'a io = "world \<Rightarrow> (error + 'a) \<times> world"

definition return :: "'a \<Rightarrow> 'a io" where
  "return x w = (Inr x, w)"

definition throw :: "error \<Rightarrow> 'a io" where
  "throw e w = (Inl e, w)"

definition await :: "'a io \<Rightarrow> ('a \<Rightarrow> 'b io) \<Rightarrow> 'b io" where
  "await m f w = (case m w of (Inl e, w') \<Rightarrow> (Inl e, w') | (Inr x, w') \<Rightarrow> f x w')"

definition try_catch :: "'a io \<Rightarrow> (error \<Rightarrow> 'a io) \<Rightarrow> 'a io" where
  "try_catch m handler w = (case m w of (Inl e, w') \<Rightarrow> handler e w' | (Inr x, w') \<Rightarrow> (Inr x, w'))"

text \<open>The outcome of a call to a service that does not touch the store.\<close>

definition external :: "error + 'a \<Rightarrow> 'a io" where
  "external outcome w = (outcome, w)"

subsection \<open>The Supabase client\<close>

text \<open>
  A query resolves to \<^verbatim>\<open>{ data, error }\<close>: the rows selected (here their ids), or an
  error and no data. It does not throw.
\<close>

record db_response =
  data :: "nat list option"
  db_error :: "error option"

definition db_fails :: "world \<Rightarrow> bool" where
  "db_fails w = (case db_errors w of [] \<Rightarrow> False | b # bs \<Rightarrow> b)"

definition db_answered :: "world \<Rightarrow> world" where
  "db_answered w = w\<lparr>db_errors := (case db_errors w of [] \<Rightarrow> [] | b # bs \<Rightarrow> bs)\<rparr>"

text \<open>\<^verbatim>\<open>supabase.from('message_history').insert([{ payload }]).select('id')\<close>\<close>

definition inserted :: "payload \<Rightarrow> world \<Rightarrow> world" where
  "inserted p w =
     (db_answered w)\<lparr>table := table w @ [(next_id w, p)],
                      next_id := Suc (next_id w),
                      journal := journal w @ [Inserted (next_id w) p]\<rparr>"

definition supabase_insert :: "payload \<Rightarrow> world \<Rightarrow> db_response \<times> world" where
  "supabase_insert p w =
     (if db_fails w then (\<lparr>data = None, db_error = Some DbError\<rparr>, db_answered w)
      else (\<lparr>data = Some [next_id w], db_error = None\<rparr>, inserted p w))"

text \<open>\<^verbatim>\<open>supabase.from('message_history').update({ payload }).eq('id', rowId).select('id')\<close>\<close>

definition updated :: "nat \<Rightarrow> payload \<Rightarrow> world \<Rightarrow> world" where
  "updated rowId p w =
     (db_answered w)\<lparr>table := map (\<lambda>r. if fst r = rowId then (rowId, p) else r) (table w),
                      journal := journal w @
                        (if rowId \<in> fst ` set (table w) then [Updated rowId p] else [])\<rparr>"

definition supabase_update :: "nat \<Rightarrow> payload \<Rightarrow> world \<Rightarrow> db_response \<times> world" where
  "supabase_update rowId p w =
     (if db_fails w then (\<lparr>data = None, db_error = Some DbError\<rparr>, db_answered w)
      else (\<lparr>data = Some (map fst (filter (\<lambda>r. fst r = rowId) (table w))), db_error = None\<rparr>,
            updated rowId p w))"

text \<open>
  \<^verbatim>\<open>
  async function sendPayload(content) {
    try {
      const { data, error } = await supabase.from('message_history')
        .insert([{ payload: content }]).select('id');
      if (error) throw error;
      return data[0].id;
    } catch (error) { console.error(...); throw error; }
  }
  \<close>
\<close>

definition first_id :: "nat list option \<Rightarrow> nat io" where
  "first_id d = (case d of Some (i # rest) \<Rightarrow> return i | _ \<Rightarrow> throw TypeError)"

definition sendPayload :: "payload \<Rightarrow> nat io" where
  "sendPayload content =
     try_catch
       (\<lambda>w. case supabase_insert content w of
              (r, w') \<Rightarrow> (case db_error r of Some e \<Rightarrow> throw e w' | None \<Rightarrow> first_id (data r) w'))
       (\<lambda>error. throw error)"

text \<open>
  \<^verbatim>\<open>
  const createRowForGPTResponse = async () => {
    const payload = { type: 'GPT', content: '' };
    const { data, error } = await supabase.from('message_history')
      .insert([{ payload }]).select('id');
    if (error) { console.error(...); throw error; }
    return data ? data[0].id : null;
  };
  \<close>
\<close>

definition createRowForGPTResponse :: "nat option io" where
  "createRowForGPTResponse =
     (\<lambda>w. case supabase_insert (GPT []) w of
            (r, w') \<Rightarrow>
              (case db_error r of
                 Some e \<Rightarrow> throw e w'
               | None \<Rightarrow>
                   (case data r of
                      None \<Rightarrow> return None w'
                    | Some d \<Rightarrow> await (first_id (Some d)) (\<lambda>i. return (Some i)) w')))"

text \<open>
  \<^verbatim>\<open>
  const updateRowWithGPTResponse = async (rowId, content) => {
    if (!rowId) { console.error(...); return null; }
    const payload = { type: 'GPT', content: content };
    try {
      const { data, error } = await supabase.from('message_history')
        .update({ payload }).eq('id', rowId).select('id');
      if (error) throw error;
      return data ? data[0].id : null;
    } catch (error) { console.error(...); throw error; }
  };
  \<close>
  \<open>!rowId\<close> holds of \<open>null\<close> and of \<open>0\<close>.
\<close>

definition updateRowWithGPTResponse :: "nat option \<Rightarrow> js_string \<Rightarrow> nat option io" where
  "updateRowWithGPTResponse rowId content =
     (case rowId of
        None \<Rightarrow> return None
      | Some i \<Rightarrow>
          if i = 0 then return None
          else try_catch
            (\<lambda>w. case supabase_update i (GPT content) w of
               (r, w') \<Rightarrow>
                 (case db_error r of
                    Some e \<Rightarrow> throw e w'
                  | None \<Rightarrow>
                      (case data r of
                         None \<Rightarrow> return None w'
                       | Some d \<Rightarrow> await (first_id (Some d)) (\<lambda>j. return (Some j)) w')))
            (\<lambda>error. throw error))"

subsection \<open>The OpenAI client\<close>

text \<open>
  What the services answer is an input of the model, fixed for one request. A streamed
  completion is the list of its parts, each with the delta content it carries if any
  (\<^verbatim>\<open>part.choices[0]?.delta?.content\<close>), and the error that ends the iteration early
  if there is one.
\<close>

record completion_stream =
  parts :: "js_string option list"
  broken :: "error option"

record search_doc =
  doc_title :: "js_string option"
  doc_link :: "js_string option"

record search_hit =
  pageContent :: js_string
  annotationPosition :: js_string

datatype node = Text js_string | Comment js_string | Element string "node list"

record request_body =
  message :: js_string
  embeddingSource :: "js_string option"

record services =
  request_json :: "error + request_body"
  Number :: "js_string \<Rightarrow> number"
  embeddings_create :: "js_string \<Rightarrow> error + number list"
  select_embeddings :: "error + webpage_embedding list"
  chat_create :: "chat_request \<Rightarrow> error + js_string"
  chat_stream :: "chat_request \<Rightarrow> error + completion_stream"
  brave_call :: "js_string \<Rightarrow> error + js_string"
  JSON_parse :: "js_string \<Rightarrow> error + search_doc list"
  JSON_stringify :: "search_hit list list \<Rightarrow> js_string"
  timer_first :: "js_string \<Rightarrow> bool"
  fetch_text :: "js_string \<Rightarrow> error + js_string"
  cheerio_load :: "js_string \<Rightarrow> node list"
  fromTexts :: "js_string \<Rightarrow> js_string \<Rightarrow> error option"
  similaritySearch :: "js_string \<Rightarrow> js_string \<Rightarrow> js_string \<Rightarrow> error + search_hit list"

definition chat_completions_create :: "services \<Rightarrow> chat_request \<Rightarrow> js_string io" where
  "chat_completions_create env req w = (chat_create env req, w\<lparr>chat_log := chat_log w @ [req]\<rparr>)"

definition chat_completions_stream :: "services \<Rightarrow> chat_request \<Rightarrow> completion_stream io" where
  "chat_completions_stream env req w = (chat_stream env req, w\<lparr>chat_log := chat_log w @ [req]\<rparr>)"

section \<open>Fetching a page\<close>

text \<open>
  The white space of the language: what \<open>\s\<close> matches in a regular expression, which
  is also what \<open>trim\<close> strips.
\<close>

definition is_space :: "16 word \<Rightarrow> bool" where
  "is_space c \<longleftrightarrow>
     c \<in> set [0x09, 0x0A, 0x0B, 0x0C, 0x0D, 0x20, 0xA0, 0x1680, 0x2028, 0x2029, 0x202F,
              0x205F, 0x3000, 0xFEFF]
     \<or> (0x2000 \<le> c \<and> c \<le> 0x200A)"

text \<open>\<open>s.replace(/\s+/g, ' ')\<close>: every maximal run of white space becomes one space.\<close>

function collapse :: "js_string \<Rightarrow> js_string" where
  "collapse [] = []"
| "collapse (c # cs) =
     (if is_space c then 0x20 # collapse (dropWhile is_space cs) else c # collapse cs)"
  by pat_completeness auto
termination
  by (relation "measure length") (auto simp add: less_Suc_eq_le length_dropWhile_le)

definition trim :: "js_string \<Rightarrow> js_string" where
  "trim s = rev (dropWhile is_space (rev (dropWhile is_space s)))"

text \<open>
  The document that \<open>cheerio.load\<close> builds is a forest of nodes. \<open>$(selector)\<close> with
  a list of tag names matches every element with one of the names, in document order;
  \<open>remove()\<close> takes the matched elements out of the tree with all they contain;
  \<open>text()\<close> is the text of the matched elements' descendants, comments left out.
\<close>

fun tagged :: "string list \<Rightarrow> node \<Rightarrow> bool" where
  "tagged tags (Element t cs) = (t \<in> set tags)"
| "tagged tags n = False"

fun remove_in :: "string list \<Rightarrow> node \<Rightarrow> node" where
  "remove_in tags (Element t cs) =
     Element t (filter (\<lambda>c. \<not> tagged tags c) (map (remove_in tags) cs))"
| "remove_in tags n = n"

definition remove_elements :: "string list \<Rightarrow> node list \<Rightarrow> node list" where
  "remove_elements tags doc = filter (\<lambda>c. \<not> tagged tags c) (map (remove_in tags) doc)"

fun select_in :: "string \<Rightarrow> node \<Rightarrow> node list" where
  "select_in t (Element u cs) =
     (if u = t then [Element u cs] else []) @ concat (map (select_in t) cs)"
| "select_in t n = []"

definition select :: "string \<Rightarrow> node list \<Rightarrow> node list" where
  "select t doc = concat (map (select_in t) doc)"

fun text_in :: "node \<Rightarrow> js_string" where
  "text_in (Text s) = s"
| "text_in (Comment s) = []"
| "text_in (Element t cs) = concat (map text_in cs)"

definition text_of :: "node list \<Rightarrow> js_string" where
  "text_of elems = concat (map text_in elems)"

text \<open>
  \<^verbatim>\<open>
  function extractMainContent(html) {
    const $ = cheerio.load(html);
    $('script, style, head, nav, footer, iframe, img').remove();
    return $('body').text().replace(/\s+/g, ' ').trim();
  }
  \<close>
  The parser is a parameter.
\<close>

definition removed_tags :: "string list" where
  "removed_tags = [''script'', ''style'', ''head'', ''nav'', ''footer'', ''iframe'', ''img'']"

definition extractMainContent :: "(js_string \<Rightarrow> node list) \<Rightarrow> js_string \<Rightarrow> js_string" where
  "extractMainContent load html =
     trim (collapse (text_of (select ''body'' (remove_elements removed_tags (load html)))))"

text \<open>
  \<^verbatim>\<open>
  async function fetchPageContent(link) {
    try {
      const response = await fetch(link, { headers: { 'User-Agent': ... } });
      const html = await response.text();
      return extractMainContent(html);
    } catch (error) { console.error(...); throw error; }
  }
  \<close>
\<close>

definition fetchPageContent :: "services \<Rightarrow> js_string \<Rightarrow> error + js_string" where
  "fetchPageContent env lnk =
     (case fetch_text env lnk of
        Inl error \<Rightarrow> Inl error
      | Inr html \<Rightarrow> Inr (extractMainContent (cheerio_load env) html))"

section \<open>Web-search mode: the fan-out over the search results\<close>

text \<open>\<open>s.includes(sub)\<close>: \<open>sub\<close> occurs in \<open>s\<close> as a contiguous piece.\<close>

fun js_includes :: "'a list \<Rightarrow> 'a list \<Rightarrow> bool" where
  "js_includes [] sub = (sub = [])"
| "js_includes (c # cs) sub = (take (length sub) (c # cs) = sub \<or> js_includes cs sub)"

text \<open>
  \<^verbatim>\<open>
  function normalizeData(docs) {
    return JSON.parse(docs)
      .filter((doc) => doc.title && doc.link && !doc.link.includes('brave.com'))
      .slice(0, 4)
      .map(({ title, link }) => ({ title, link }));
  }
  \<close>
  A string is truthy when it is there and not empty.
\<close>

definition truthy :: "js_string option \<Rightarrow> bool" where
  "truthy v = (case v of None \<Rightarrow> False | Some s \<Rightarrow> s \<noteq> [])"

definition usable :: "search_doc \<Rightarrow> bool" where
  "usable doc \<longleftrightarrow>
     truthy (doc_title doc) \<and> truthy (doc_link doc)
     \<and> (case doc_link doc of None \<Rightarrow> False | Some l \<Rightarrow> \<not> js_includes l (js ''brave.com''))"

definition to_source :: "search_doc \<Rightarrow> source" where
  "to_source doc =
     \<lparr>title = (case doc_title doc of None \<Rightarrow> [] | Some t \<Rightarrow> t),
      link = (case doc_link doc of None \<Rightarrow> [] | Some l \<Rightarrow> l)\<rparr>"

definition normalizeData :: "services \<Rightarrow> js_string \<Rightarrow> error + source list" where
  "normalizeData env docs =
     (case JSON_parse env docs of
        Inl error \<Rightarrow> Inl error
      | Inr parsed \<Rightarrow> Inr (map to_source (slice0 4 (filter usable parsed))))"

text \<open>
  \<open>Promise.race([timer, fetchPromise])\<close>. The timer rejects with \<open>Timeout\<close> after
  5000 milliseconds; which of the two settles first is decided by the services.
\<close>

definition Promise_race :: "bool \<Rightarrow> error + 'a \<Rightarrow> error + 'a" where
  "Promise_race timer_settles_first fetchPromise =
     (if timer_settles_first then Inl Timeout else fetchPromise)"

text \<open>
  \<^verbatim>\<open>
  const fetchAndProcess = async (item) => {
    try {
      const timer = new Promise((_, reject) =>
        setTimeout(() => reject(new Error('Timeout')), 5000));
      const fetchPromise = fetchPageContent(item.link);
      const htmlContent = await Promise.race([timer, fetchPromise]);
      if (htmlContent.length < 250) return null;
      const splitText = await new RecursiveCharacterTextSplitter(...).splitText(htmlContent);
      const vectorStore = await MemoryVectorStore.fromTexts(splitText, ..., embeddings);
      vectorCount++;
      return await vectorStore.similaritySearch(message, 1);
    } catch (error) {
      console.log(...);
      vectorCount++;
      return null;
    }
  };
  \<close>
  The body of the \<open>try\<close> first, with the counter it shares with the other items, then
  the function with its \<open>catch\<close>.
\<close>

definition fetchAndProcess_try ::
  "services \<Rightarrow> js_string \<Rightarrow> source \<Rightarrow> nat \<Rightarrow> (error + search_hit list option) \<times> nat" where
  "fetchAndProcess_try env msg item vectorCount =
     (case Promise_race (timer_first env (link item)) (fetchPageContent env (link item)) of
        Inl error \<Rightarrow> (Inl error, vectorCount)
      | Inr htmlContent \<Rightarrow>
          if length htmlContent < 250 then (Inr None, vectorCount)
          else (case fromTexts env htmlContent (link item) of
                  Some error \<Rightarrow> (Inl error, vectorCount)
                | None \<Rightarrow>
                    (case similaritySearch env htmlContent (link item) msg of
                       Inl error \<Rightarrow> (Inl error, Suc vectorCount)
                     | Inr found \<Rightarrow> (Inr (Some found), Suc vectorCount))))"

definition fetchAndProcess ::
  "services \<Rightarrow> js_string \<Rightarrow> source \<Rightarrow> nat \<Rightarrow> (error + search_hit list option) \<times> nat" where
  "fetchAndProcess env msg item vectorCount =
     (case fetchAndProcess_try env msg item vectorCount of
        (Inl error, n) \<Rightarrow> (Inr None, Suc n)
      | (Inr result, n) \<Rightarrow> (Inr result, n))"

text \<open>\<open>items.map(f)\<close> for an \<open>f\<close> that counts, and \<open>Promise.all\<close> of the promises.\<close>

fun map_counting :: "('a \<Rightarrow> nat \<Rightarrow> 'b \<times> nat) \<Rightarrow> 'a list \<Rightarrow> nat \<Rightarrow> 'b list \<times> nat" where
  "map_counting f [] n = ([], n)"
| "map_counting f (x # xs) n =
     (case f x n of (y, n') \<Rightarrow> (case map_counting f xs n' of (ys, n'') \<Rightarrow> (y # ys, n'')))"

fun Promise_all :: "(error + 'a) list \<Rightarrow> error + 'a list" where
  "Promise_all [] = Inr []"
| "Promise_all (Inl e # ps) = Inl e"
| "Promise_all (Inr x # ps) = (case Promise_all ps of Inl e \<Rightarrow> Inl e | Inr xs \<Rightarrow> Inr (x # xs))"

text \<open>\<^verbatim>\<open>while (vectorCount < 4) { vectorCount++; }\<close>\<close>

function at_least_four :: "nat \<Rightarrow> nat" where
  "at_least_four vectorCount =
     (if vectorCount < 4 then at_least_four (Suc vectorCount) else vectorCount)"
  by pat_completeness auto
termination
  by (relation "measure (\<lambda>n. 4 - n)") auto

text \<open>
  From the fan-out to the string for the language model: the successful results, the
  top four of them, and the input string.
\<close>

record scan =
  results :: "search_hit list option list"
  successfulResults :: "search_hit list list"
  topResult :: "search_hit list list"
  vectorCount_end :: nat

definition successful :: "search_hit list option list \<Rightarrow> search_hit list list" where
  "successful rs = concat (map (\<lambda>r. case r of None \<Rightarrow> [] | Some found \<Rightarrow> [found]) rs)"

definition scan_sources :: "services \<Rightarrow> js_string \<Rightarrow> source list \<Rightarrow> error + scan" where
  "scan_sources env msg normalizedData =
     (case map_counting (fetchAndProcess env msg) normalizedData 0 of
        (promises, vectorCount) \<Rightarrow>
          (case Promise_all promises of
             Inl error \<Rightarrow> Inl error
           | Inr rs \<Rightarrow>
               Inr \<lparr>results = rs,
                    successfulResults = successful rs,
                    topResult = (if length (successful rs) > 4 then slice0 4 (successful rs)
                                 else successful rs),
                    vectorCount_end = at_least_four vectorCount\<rparr>))"

definition web_input :: "services \<Rightarrow> js_string \<Rightarrow> search_hit list list \<Rightarrow> js_string" where
  "web_input env msg best =
     js ''Query: '' @ msg @ js '', Top Results: '' @ JSON_stringify env best"

section \<open>The answer, the follow-up questions and the handler\<close>

text \<open>
  \<^verbatim>\<open>
  async function rephraseInput(inputString) {
    const gptAnswer = await openai.chat.completions.create({
      model: 'gpt-4o',
      messages: [{ role: 'system', content: '...' }, { role: 'user', content: inputString }],
    });
    return gptAnswer.choices[0].message.content;
  }
  \<close>
\<close>

definition rephrase_request :: "js_string \<Rightarrow> chat_request" where
  "rephrase_request inputString =
     \<lparr>model = ''gpt-4o'',
      system_content = js (''You are a rephraser and always respond with a rephrased version ''
        @ ''of the input that is given to a search engine API. Always be succinct and use ''
        @ ''the same words as the input.''),
      user_content = inputString,
      streaming = False\<rparr>"

definition rephraseInput :: "services \<Rightarrow> js_string \<Rightarrow> js_string io" where
  "rephraseInput env inputString = chat_completions_create env (rephrase_request inputString)"

text \<open>
  \<^verbatim>\<open>
  const getGPTResults = async (inputString) => {
    let accumulatedContent = '';
    const stream = await openai.chat.completions.create({ model: 'gpt-4o',
      messages: [{ role: 'system', content: '...' }, { role: 'user', content: inputString }],
      stream: true });
    let rowId = await createRowForGPTResponse();
    await sendPayload({ type: 'Heading', content: 'Answer' });
    for await (const part of stream) {
      if (part.choices[0]?.delta?.content) {
        accumulatedContent += part.choices[0]?.delta?.content;
        await updateRowWithGPTResponse(rowId, accumulatedContent);
      }
    }
  };
  \<close>
  The loop first: it runs over the parts of the stream with the accumulated content, and
  ends with the error that broke the stream if there was one.
\<close>

definition answer_request :: "js_string \<Rightarrow> chat_request" where
  "answer_request inputString =
     \<lparr>model = ''gpt-4o'',
      system_content = js (''You are an assistant that provides answers to user queries based ''
        @ ''EXCLUSIVELY on the provided context. You are STRICTLY FORBIDDEN from using any ''
        @ ''information from your training data or external knowledge. Use ONLY the given ''
        @ ''context to generate accurate and helpful responses. If the context does not ''
        @ ''contain sufficient information to answer the query, state that you cannot ''
        @ ''provide an answer based on the given context.''),
      user_content = inputString,
      streaming = True\<rparr>"

definition delta :: "js_string option \<Rightarrow> js_string" where
  "delta part = (case part of None \<Rightarrow> [] | Some d \<Rightarrow> d)"

fun for_await ::
  "nat option \<Rightarrow> js_string \<Rightarrow> js_string option list \<Rightarrow> error option \<Rightarrow> world
     \<Rightarrow> (error + js_string) \<times> world" where
  "for_await rowId accumulatedContent [] ending w =
     (case ending of None \<Rightarrow> (Inr accumulatedContent, w) | Some error \<Rightarrow> (Inl error, w))"
| "for_await rowId accumulatedContent (part # rest) ending w =
     (if truthy part then
        (case updateRowWithGPTResponse rowId (accumulatedContent @ delta part) w of
           (Inl error, w') \<Rightarrow> (Inl error, w')
         | (Inr row, w') \<Rightarrow> for_await rowId (accumulatedContent @ delta part) rest ending w')
      else for_await rowId accumulatedContent rest ending w)"

definition getGPTResults :: "services \<Rightarrow> js_string \<Rightarrow> unit io" where
  "getGPTResults env inputString =
     await (chat_completions_stream env (answer_request inputString)) (\<lambda>stream.
     await createRowForGPTResponse (\<lambda>rowId.
     await (sendPayload (Heading (js ''Answer''))) (\<lambda>sent.
     await (for_await rowId [] (parts stream) (broken stream)) (\<lambda>accumulatedContent.
     return ()))))"

text \<open>
  \<^verbatim>\<open>
  async function generateFollowup(message) {
    const chatCompletion = await openai.chat.completions.create({
      messages: [
        { role: 'system', content: `You are a follow up answer generator and always respond
            with 4 follow up questions based on this input "${message}" in JSON format.
            i.e. { "follow_up": ["QUESTION_GOES_HERE", "QUESTION_GOES_HERE",
            "QUESTION_GOES_HERE", "QUESTION_GOES_HERE"] }` },
        { role: 'user', content: `Generate 4 follow up questions based on this input "${message}"` },
      ],
      model: 'gpt-4',
    });
    return chatCompletion.choices[0].message.content;
  }
  \<close>
  The double quote of the prompts is the code unit \<open>0x22\<close>.
\<close>

definition follow_up_example :: js_string where
  "follow_up_example =
     js ''{ '' @ [0x22] @ js ''follow_up'' @ [0x22] @ js '': [''
     @ [0x22] @ js ''QUESTION_GOES_HERE'' @ [0x22] @ js '', ''
     @ [0x22] @ js ''QUESTION_GOES_HERE'' @ [0x22] @ js '', ''
     @ [0x22] @ js ''QUESTION_GOES_HERE'' @ [0x22] @ js '', ''
     @ [0x22] @ js ''QUESTION_GOES_HERE'' @ [0x22] @ js ''] }''"

definition followup_request :: "js_string \<Rightarrow> chat_request" where
  "followup_request msg =
     \<lparr>model = ''gpt-4'',
      system_content =
        js (''You are a follow up answer generator and always respond with 4 follow up ''
          @ ''questions based on this input '') @ [0x22] @ msg @ [0x22]
        @ js '' in JSON format. i.e. '' @ follow_up_example,
      user_content =
        js ''Generate 4 follow up questions based on this input '' @ [0x22] @ msg @ [0x22],
      streaming = False\<rparr>"

definition generateFollowup :: "services \<Rightarrow> js_string \<Rightarrow> js_string io" where
  "generateFollowup env msg = chat_completions_create env (followup_request msg)"

text \<open>A response of the handler: \<open>NextResponse.json(body, { status })\<close>, 200 by default.\<close>

datatype json_body = MessageBody js_string | ErrorBody js_string

record response =
  status :: nat
  body :: json_body

definition processing_response :: response where
  "processing_response = \<lparr>status = 200, body = MessageBody (js ''Processing request'')\<rparr>"

definition error_response :: response where
  "error_response =
     \<lparr>status = 500, body = ErrorBody (js ''An error occurred while processing the request'')\<rparr>"

text \<open>
  \<^verbatim>\<open>
  async function triggerLLMAndFollowup(inputString) {
    await getGPTResults(inputString);
    const followUpResult = await generateFollowup(inputString);
    await sendPayload({ type: 'FollowUp', content: followUpResult });
    return NextResponse.json({ message: 'Processing request' });
  }
  \<close>
\<close>

definition triggerLLMAndFollowup :: "services \<Rightarrow> js_string \<Rightarrow> response io" where
  "triggerLLMAndFollowup env inputString =
     await (getGPTResults env inputString) (\<lambda>finished.
     await (generateFollowup env inputString) (\<lambda>followUpResult.
     await (sendPayload (FollowUp followUpResult)) (\<lambda>sent.
     return processing_response)))"

text \<open>
  \<open>searchEngineForSources(message, embeddingSource)\<close>: the database mode, the
  web-search mode, and the choice between them. The lines that only print to the console
  are left out.
\<close>

definition database_mode :: "services \<Rightarrow> js_string \<Rightarrow> unit io" where
  "database_mode env msg =
     await (external (embeddings_create env msg)) (\<lambda>queryEmbedding.
     await (external (select_embeddings env)) (\<lambda>embeddingsData.
     await (sendPayload
              (Sources (sourcesPayload queryEmbedding (documents_of (Number env) embeddingsData))))
       (\<lambda>sent.
     await (sendPayload
              (VectorCreation (js ''Finished Retrieving Embeddings from Database.''))) (\<lambda>sent.
     await (triggerLLMAndFollowup env
              (database_input msg queryEmbedding (documents_of (Number env) embeddingsData)))
       (\<lambda>answered. return ())))))"

definition web_mode :: "services \<Rightarrow> js_string \<Rightarrow> unit io" where
  "web_mode env msg =
     await (rephraseInput env msg) (\<lambda>rephrasedMessage.
     await (external (brave_call env rephrasedMessage)) (\<lambda>docs.
     await (external (normalizeData env docs)) (\<lambda>normalizedData.
     await (sendPayload (Sources normalizedData)) (\<lambda>sent.
     await (external (scan_sources env msg normalizedData)) (\<lambda>scanned.
     await (sendPayload (VectorCreation (js ''Finished Scanning Sources.''))) (\<lambda>sent.
     await (triggerLLMAndFollowup env (web_input env msg (topResult scanned)))
       (\<lambda>answered. return ())))))))"

definition searchEngineForSources :: "services \<Rightarrow> js_string \<Rightarrow> js_string option \<Rightarrow> unit io" where
  "searchEngineForSources env msg source_kind =
     (if source_kind = Some (js ''database'') then database_mode env msg else web_mode env msg)"

text \<open>
  \<^verbatim>\<open>
  export async function POST(req) {
    try {
      const { message, embeddingSource } = await req.json();
      await sendPayload({ type: 'Query', content: message });
      await searchEngineForSources(message, embeddingSource);
      return NextResponse.json({ message: 'Processing request' });
    } catch (error) {
      console.error('Error processing request:', error);
      return NextResponse.json(
        { error: 'An error occurred while processing the request' }, { status: 500 });
    }
  }
  \<close>
\<close>

definition POST_try :: "services \<Rightarrow> response io" where
  "POST_try env =
     await (external (request_json env)) (\<lambda>req.
     await (sendPayload (Query (message req))) (\<lambda>sent.
     await (searchEngineForSources env (message req) (embeddingSource req)) (\<lambda>found.
     return processing_response)))"

definition POST :: "services \<Rightarrow> response io" where
  "POST env = try_catch (POST_try env) (\<lambda>error. return error_response)"

section \<open>Properties of the store operations\<close>

lemma db_fails_inserted: "db_fails (inserted p w) = db_fails (db_answered w)"
  by (simp add: inserted_def db_fails_def db_answered_def)

lemma sendPayload_eq:
  "sendPayload p w =
     (if db_fails w then (Inl DbError, db_answered w) else (Inr (next_id w), inserted p w))"
  by (simp add: sendPayload_def try_catch_def supabase_insert_def throw_def first_id_def return_def)

lemma createRow_eq:
  "createRowForGPTResponse w =
     (if db_fails w then (Inl DbError, db_answered w)
      else (Inr (Some (next_id w)), inserted (GPT []) w))"
  by (simp add: createRowForGPTResponse_def supabase_insert_def throw_def first_id_def
      return_def await_def)

lemma first_id_matched:
  "first_id (Some (map fst (filter (\<lambda>r. fst r = i) t))) w
     = (if i \<in> fst ` set t then (Inr i, w) else (Inl TypeError, w))"
proof (induction t)
  case Nil
  show ?case by (simp add: first_id_def throw_def)
next
  case (Cons r t)
  then show ?case
    by (cases "fst r = i") (auto simp add: first_id_def throw_def return_def)
qed

lemma updateRow_eq:
  "updateRowWithGPTResponse rowId c w =
     (case rowId of None \<Rightarrow> (Inr None, w)
      | Some i \<Rightarrow>
        if i = 0 then (Inr None, w)
        else if db_fails w then (Inl DbError, db_answered w)
        else if i \<in> fst ` set (table w) then (Inr (Some i), updated i (GPT c) w)
        else (Inl TypeError, updated i (GPT c) w))"
proof (cases rowId)
  case None
  then show ?thesis by (simp add: updateRowWithGPTResponse_def return_def)
next
  case (Some i)
  then show ?thesis
    by (simp add: updateRowWithGPTResponse_def try_catch_def supabase_update_def throw_def
        return_def await_def first_id_matched)
qed


section \<open>The answer streamer\<close>

text \<open>
  The words of the claim: the concatenation of all delta contents received up to and
  including part \<open>k\<close> of the stream, the parts that carry delta content (those the
  loop does not skip), and the content the store holds for a row.
\<close>

definition received_so_far :: "js_string option list \<Rightarrow> nat \<Rightarrow> js_string" where
  "received_so_far ps k = concat (map delta (take (Suc k) ps))"

definition carrying :: "js_string option list \<Rightarrow> nat list" where
  "carrying ps = filter (\<lambda>k. truthy (ps ! k)) [0..<length ps]"

text \<open>Every row with the identifier \<open>i\<close> holds the answer \<open>c\<close>.\<close>

definition holds :: "nat \<Rightarrow> js_string \<Rightarrow> world \<Rightarrow> bool" where
  "holds i c w = list_all (\<lambda>r. fst r = i \<longrightarrow> snd r = GPT c) (table w)"

lemma carrying_Nil: "carrying [] = []"
  by (simp add: carrying_def)

lemma carrying_Cons:
  "carrying (p # ps) = (if truthy p then [0] else []) @ map Suc (carrying ps)"
proof -
  have "[0..<length (p # ps)] = 0 # map Suc [0..<length ps]"
    by (simp add: upt_conv_Cons map_Suc_upt del: upt_Suc)
  then show ?thesis
    by (simp add: carrying_def filter_map comp_def del: upt_Suc)
qed

lemma received_Suc: "received_so_far (p # ps) (Suc k) = delta p @ received_so_far ps k"
  by (simp add: received_so_far_def)

lemma received_0: "received_so_far (p # ps) 0 = delta p"
  by (simp add: received_so_far_def)

lemma delta_not_truthy: "\<not> truthy p \<Longrightarrow> delta p = []"
  by (cases p) (simp_all add: truthy_def delta_def)

lemma updated_fields:
  "journal (updated i p w) = journal w @ (if i \<in> fst ` set (table w) then [Updated i p] else [])"
  "table (updated i p w) = map (\<lambda>r. if fst r = i then (i, p) else r) (table w)"
  "next_id (updated i p w) = next_id w"
  "chat_log (updated i p w) = chat_log w"
  by (simp_all add: updated_def db_answered_def)

lemma ids_map_update: "fst ` set (map (\<lambda>r. if fst r = i then (i, p) else r) t) = fst ` set t"
  by (induction t) auto

lemma ids_updated: "fst ` set (table (updated i p w)) = fst ` set (table w)"
  by (simp only: updated_fields ids_map_update)

lemma holds_updated: "holds i c (updated i (GPT c) w)"
  by (auto simp add: holds_def updated_fields list_all_iff)

lemma for_await_success:
  assumes "i \<noteq> 0" and "i \<in> fst ` set (table w)"
    and "for_await (Some i) acc ps ending w = (Inr out, w')"
  shows "journal w' = journal w @ map (\<lambda>k. Updated i (GPT (acc @ received_so_far ps k))) (carrying ps)
       \<and> out = acc @ concat (map delta ps)
       \<and> (holds i acc w \<longrightarrow> holds i out w')
       \<and> fst ` set (table w') = fst ` set (table w)
       \<and> next_id w' = next_id w \<and> chat_log w' = chat_log w"
  using assms
proof (induction ps arbitrary: acc w)
  case Nil
  then show ?case
    by (cases ending) (simp_all add: carrying_Nil)
next
  case (Cons p ps)
  show ?case
  proof (cases "truthy p")
    case False
    with Cons.prems have run: "for_await (Some i) acc ps ending w = (Inr out, w')"
      by simp
    from Cons.IH [OF Cons.prems(1,2) run] False show ?thesis
      by (auto simp add: carrying_Cons received_Suc delta_not_truthy comp_def)
  next
    case True
    let ?w1 = "updated i (GPT (acc @ delta p)) w"
    from Cons.prems(1,2) have upd: "updateRowWithGPTResponse (Some i) (acc @ delta p) w
        = (if db_fails w then (Inl DbError, db_answered w) else (Inr (Some i), ?w1))"
      by (simp add: updateRow_eq)
    with True Cons.prems(3) have ok: "\<not> db_fails w"
      by (auto split: if_splits)
    with True Cons.prems(3) upd
    have run: "for_await (Some i) (acc @ delta p) ps ending ?w1 = (Inr out, w')"
      by simp
    have ids: "i \<in> fst ` set (table ?w1)"
      using Cons.prems(2) by (simp add: ids_updated)
    have h: "holds i (acc @ delta p) ?w1"
      by (rule holds_updated)
    note IH = Cons.IH [OF Cons.prems(1) ids run]
    have j1: "journal ?w1 = journal w @ [Updated i (GPT (acc @ delta p))]"
      using Cons.prems(2) by (simp only: updated_fields if_True)
    from IH have "journal w' = journal ?w1
        @ map (\<lambda>k. Updated i (GPT ((acc @ delta p) @ received_so_far ps k))) (carrying ps)"
      by blast
    with True j1 have "journal w' = journal w
        @ map (\<lambda>k. Updated i (GPT (acc @ received_so_far (p # ps) k))) (carrying (p # ps))"
      by (simp add: carrying_Cons received_Suc received_0 comp_def)
    moreover from IH have "out = acc @ concat (map delta (p # ps))" by simp
    moreover from IH h have "holds i out w'" by blast
    moreover from IH have "fst ` set (table w') = fst ` set (table w)"
      by (simp only: ids_updated)
    moreover from IH have "next_id w' = next_id w" by (simp only: updated_fields)
    moreover from IH have "chat_log w' = chat_log w" by (simp only: updated_fields)
    ultimately show ?thesis by blast
  qed
qed

definition row_content :: "nat \<Rightarrow> world \<Rightarrow> payload option" where
  "row_content i w = map_of (table w) i"

lemma inserted_fields:
  "journal (inserted p w) = journal w @ [Inserted (next_id w) p]"
  "table (inserted p w) = table w @ [(next_id w, p)]"
  "next_id (inserted p w) = Suc (next_id w)"
  "chat_log (inserted p w) = chat_log w"
  by (simp_all add: inserted_def db_answered_def)

lemma holds_row_content:
  "holds i c w \<Longrightarrow> i \<in> fst ` set (table w) \<Longrightarrow> row_content i w = Some (GPT c)"
proof -
  assume h: "holds i c w" and "i \<in> fst ` set (table w)"
  then obtain p where "map_of (table w) i = Some p"
    by (metis domD dom_map_of_conv_image_fst)
  moreover from this have "(i, p) \<in> set (table w)" by (rule map_of_SomeD)
  ultimately show ?thesis
    using h by (auto simp add: holds_def row_content_def list_all_iff)
qed




lemma getGPTResults_loop:
  assumes run: "getGPTResults env inputString w = (Inr (), w')"
    and stream: "chat_stream env (answer_request inputString) = Inr stream"
  shows "\<exists>out. for_await (Some (next_id w)) [] (parts stream) (broken stream)
           (inserted (Heading (js ''Answer'')) (inserted (GPT [])
              (w\<lparr>chat_log := chat_log w @ [answer_request inputString]\<rparr>))) = (Inr out, w')"
proof -
  let ?w0 = "w\<lparr>chat_log := chat_log w @ [answer_request inputString]\<rparr>"
  let ?w1 = "inserted (GPT []) ?w0"
  from run stream have ok1: "\<not> db_fails ?w0"
    by (auto simp add: getGPTResults_def await_def chat_completions_stream_def createRow_eq
        split: if_splits)
  with run stream have ok2: "\<not> db_fails ?w1"
    by (auto simp add: getGPTResults_def await_def chat_completions_stream_def createRow_eq
        sendPayload_eq split: if_splits)
  from run stream ok1 ok2 show ?thesis
    by (auto simp add: getGPTResults_def await_def chat_completions_stream_def createRow_eq
        sendPayload_eq return_def split: prod.splits sum.splits)
qed

lemma getGPTResults_success:
  assumes run: "getGPTResults env inputString w = (Inr (), w')"
    and stream: "chat_stream env (answer_request inputString) = Inr stream"
    and positive: "next_id w \<noteq> 0"
  shows "journal w' = journal w
           @ [Inserted (next_id w) (GPT []), Inserted (Suc (next_id w)) (Heading (js ''Answer''))]
           @ map (\<lambda>k. Updated (next_id w) (GPT (received_so_far (parts stream) k)))
               (carrying (parts stream))"
    and "next_id w \<notin> fst ` set (table w) \<longrightarrow>
           row_content (next_id w) w' = Some (GPT (concat (map delta (parts stream))))"
    and "next_id w' = Suc (Suc (next_id w))"
    and "chat_log w' = chat_log w @ [answer_request inputString]"
proof -
  let ?r = "next_id w"
  let ?w0 = "w\<lparr>chat_log := chat_log w @ [answer_request inputString]\<rparr>"
  let ?w1 = "inserted (GPT []) ?w0"
  let ?w2 = "inserted (Heading (js ''Answer'')) ?w1"
  from getGPTResults_loop [OF run stream] obtain out where
    loop: "for_await (Some ?r) [] (parts stream) (broken stream) ?w2 = (Inr out, w')"
    by blast
  have t2: "table ?w2 = table w @ [(?r, GPT []), (Suc ?r, Heading (js ''Answer''))]"
    by (simp add: inserted_fields)
  have j2: "journal ?w2 = journal w
      @ [Inserted ?r (GPT []), Inserted (Suc ?r) (Heading (js ''Answer''))]"
    by (simp add: inserted_fields)
  have ids: "?r \<in> fst ` set (table ?w2)"
    by (simp add: t2)
  note L = for_await_success [OF positive ids loop]
  from L j2 show "journal w' = journal w
           @ [Inserted ?r (GPT []), Inserted (Suc ?r) (Heading (js ''Answer''))]
           @ map (\<lambda>k. Updated ?r (GPT (received_so_far (parts stream) k)))
               (carrying (parts stream))"
    by simp
  show "?r \<notin> fst ` set (table w) \<longrightarrow>
      row_content ?r w' = Some (GPT (concat (map delta (parts stream))))"
  proof
    assume fresh: "?r \<notin> fst ` set (table w)"
    then have h: "holds ?r [] ?w2"
      by (force simp add: holds_def t2 list_all_iff)
    with L ids have "holds ?r (concat (map delta (parts stream))) w'"
      and "?r \<in> fst ` set (table w')" by auto
    then show "row_content ?r w' = Some (GPT (concat (map delta (parts stream))))"
      by (rule holds_row_content)
  qed
  from L show "next_id w' = Suc (Suc ?r)" by (simp add: inserted_fields)
  from L show "chat_log w' = chat_log w @ [answer_request inputString]"
    by (simp add: inserted_fields)
qed

text \<open>
  Services that answer nothing, an empty table whose serial column starts at 1, and a
  stream of four parts of which the first and the last carry content.
\<close>

definition no_services :: services where
  "no_services =
     \<lparr>request_json = Inl SyntaxError, Number = (\<lambda>s. NaN),
      embeddings_create = (\<lambda>m. Inl ApiError), select_embeddings = Inl DbError,
      chat_create = (\<lambda>r. Inl ApiError), chat_stream = (\<lambda>r. Inl ApiError),
      brave_call = (\<lambda>q. Inl ApiError), JSON_parse = (\<lambda>s. Inl SyntaxError),
      JSON_stringify = (\<lambda>t. []), timer_first = (\<lambda>l. True),
      fetch_text = (\<lambda>l. Inl FetchError), cheerio_load = (\<lambda>h. []),
      fromTexts = (\<lambda>c l. Some ApiError), similaritySearch = (\<lambda>c l m. Inl ApiError)\<rparr>"

definition empty_world :: world where
  "empty_world = \<lparr>table = [], next_id = 1, db_errors = [], journal = [], chat_log = []\<rparr>"

definition hello_stream :: completion_stream where
  "hello_stream = \<lparr>parts = [Some (js ''Hel''), None, Some [], Some (js ''lo'')], broken = None\<rparr>"





section \<open>The order of the writes\<close>

lemma await_Inr:
  assumes "await m f w = (Inr y, w')"
  obtains x w1 where "m w = (Inr x, w1)" and "f x w1 = (Inr y, w')"
  using assms by (auto simp add: await_def split: prod.splits sum.splits)

lemma external_Inr: "external r w = (Inr x, w1) \<Longrightarrow> r = Inr x \<and> w1 = w"
  by (simp add: external_def)

lemma return_Inr: "return x w = (Inr y, w') \<Longrightarrow> y = x \<and> w' = w"
  by (simp add: return_def)

lemma sendPayload_Inr:
  "sendPayload p w = (Inr i, w') \<Longrightarrow> i = next_id w \<and> w' = inserted p w"
  by (auto simp add: sendPayload_eq split: if_splits)

lemma getGPTResults_stream:
  assumes "getGPTResults env inputString w = (Inr u, w')"
  obtains stream where "chat_stream env (answer_request inputString) = Inr stream"
  using assms
  by (cases "chat_stream env (answer_request inputString)")
     (auto simp add: getGPTResults_def await_def chat_completions_stream_def)

text \<open>
  The writes of \<open>triggerLLMAndFollowup\<close> when it succeeds, from the identifier
  \<open>n\<close> on: the empty GPT row, the heading, the updates of the GPT row, the follow-up.
\<close>

definition answer_events :: "nat \<Rightarrow> js_string option list \<Rightarrow> js_string \<Rightarrow> db_event list" where
  "answer_events n ps followUp =
     [Inserted n (GPT []), Inserted (Suc n) (Heading (js ''Answer''))]
     @ map (\<lambda>k. Updated n (GPT (received_so_far ps k))) (carrying ps)
     @ [Inserted (Suc (Suc n)) (FollowUp followUp)]"

lemma trigger_success:
  assumes run: "triggerLLMAndFollowup env inputString w = (Inr r, w')"
    and positive: "next_id w \<noteq> 0"
  obtains stream followUp where
    "chat_stream env (answer_request inputString) = Inr stream"
    "chat_create env (followup_request inputString) = Inr followUp"
    "r = processing_response"
    "journal w' = journal w @ answer_events (next_id w) (parts stream) followUp"
    "chat_log w' = chat_log w @ [answer_request inputString, followup_request inputString]"
proof -
  from run obtain u w1 where g: "getGPTResults env inputString w = (Inr u, w1)"
    and rest1: "await (generateFollowup env inputString) (\<lambda>followUpResult.
       await (sendPayload (FollowUp followUpResult)) (\<lambda>sent. return processing_response)) w1
       = (Inr r, w')"
    unfolding triggerLLMAndFollowup_def by (rule await_Inr)
  from g obtain stream where st: "chat_stream env (answer_request inputString) = Inr stream"
    by (rule getGPTResults_stream)
  from g have g': "getGPTResults env inputString w = (Inr (), w1)" by simp
  note G = getGPTResults_success [OF g' st positive]
  from rest1 obtain followUp w2 where f: "generateFollowup env inputString w1 = (Inr followUp, w2)"
    and rest2: "await (sendPayload (FollowUp followUp)) (\<lambda>sent. return processing_response) w2
       = (Inr r, w')"
    by (rule await_Inr)
  from f have fu: "chat_create env (followup_request inputString) = Inr followUp"
    and w2: "journal w2 = journal w1" "next_id w2 = next_id w1"
    and c2: "chat_log w2 = chat_log w1 @ [followup_request inputString]"
    by (auto simp add: generateFollowup_def chat_completions_create_def)
  from rest2 obtain i w3 where s: "sendPayload (FollowUp followUp) w2 = (Inr i, w3)"
    and rest3: "return processing_response w3 = (Inr r, w')"
    by (rule await_Inr)
  from sendPayload_Inr [OF s] have w3: "w3 = inserted (FollowUp followUp) w2" by simp
  from rest3 have r: "r = processing_response" and w': "w' = w3" by (simp_all add: return_def)
  have "journal w' = journal w @ answer_events (next_id w) (parts stream) followUp"
    using G(1,3) w2 w3 w' by (simp add: answer_events_def inserted_fields)
  moreover have "chat_log w' = chat_log w @ [answer_request inputString, followup_request inputString]"
    using G(4) c2 w3 w' by (simp add: inserted_fields)
  ultimately show thesis using st fu r by (intro that)
qed


lemma database_mode_success:
  assumes run: "database_mode env msg w = (Inr u, w')"
  obtains q rows stream followUp where
    "embeddings_create env msg = Inr q"
    "select_embeddings env = Inr rows"
    "chat_stream env (answer_request
        (database_input msg q (documents_of (Number env) rows))) = Inr stream"
    "journal w' = journal w
       @ [Inserted (next_id w) (Sources (sourcesPayload q (documents_of (Number env) rows))),
          Inserted (Suc (next_id w))
            (VectorCreation (js ''Finished Retrieving Embeddings from Database.''))]
       @ answer_events (Suc (Suc (next_id w))) (parts stream) followUp"
    "chat_log w' = chat_log w
       @ [answer_request (database_input msg q (documents_of (Number env) rows)),
          followup_request (database_input msg q (documents_of (Number env) rows))]"
proof -
  from run obtain q w1 where e: "external (embeddings_create env msg) w = (Inr q, w1)"
    and rest1: "await (external (select_embeddings env)) (\<lambda>embeddingsData.
     await (sendPayload
              (Sources (sourcesPayload q (documents_of (Number env) embeddingsData))))
       (\<lambda>sent.
     await (sendPayload
              (VectorCreation (js ''Finished Retrieving Embeddings from Database.''))) (\<lambda>sent.
     await (triggerLLMAndFollowup env
              (database_input msg q (documents_of (Number env) embeddingsData)))
       (\<lambda>answered. return ())))) w1 = (Inr u, w')"
    unfolding database_mode_def by (rule await_Inr)
  from e have q: "embeddings_create env msg = Inr q" and w1: "w1 = w"
    by (simp_all add: external_def)
  from rest1 obtain rows w2 where s: "external (select_embeddings env) w1 = (Inr rows, w2)"
    and rest2: "await (sendPayload
              (Sources (sourcesPayload q (documents_of (Number env) rows))))
       (\<lambda>sent.
     await (sendPayload
              (VectorCreation (js ''Finished Retrieving Embeddings from Database.''))) (\<lambda>sent.
     await (triggerLLMAndFollowup env
              (database_input msg q (documents_of (Number env) rows)))
       (\<lambda>answered. return ()))) w2 = (Inr u, w')"
    by (rule await_Inr)
  from s w1 have rows: "select_embeddings env = Inr rows" and w2: "w2 = w"
    by (simp_all add: external_def)
  let ?docs = "documents_of (Number env) rows"
  from rest2 obtain i w3 where p1: "sendPayload (Sources (sourcesPayload q ?docs)) w2 = (Inr i, w3)"
    and rest3: "await (sendPayload
              (VectorCreation (js ''Finished Retrieving Embeddings from Database.''))) (\<lambda>sent.
     await (triggerLLMAndFollowup env (database_input msg q ?docs))
       (\<lambda>answered. return ())) w3 = (Inr u, w')"
    by (rule await_Inr)
  from sendPayload_Inr [OF p1] w2 have w3: "w3 = inserted (Sources (sourcesPayload q ?docs)) w"
    by simp
  from rest3 obtain j w4 where p2: "sendPayload
      (VectorCreation (js ''Finished Retrieving Embeddings from Database.'')) w3 = (Inr j, w4)"
    and rest4: "await (triggerLLMAndFollowup env (database_input msg q ?docs))
       (\<lambda>answered. return ()) w4 = (Inr u, w')"
    by (rule await_Inr)
  from sendPayload_Inr [OF p2] have w4: "w4 = inserted
      (VectorCreation (js ''Finished Retrieving Embeddings from Database.'')) w3"
    by simp
  from rest4 obtain r w5 where t: "triggerLLMAndFollowup env (database_input msg q ?docs) w4
      = (Inr r, w5)" and rest5: "return () w5 = (Inr u, w')"
    by (rule await_Inr)
  from rest5 have w5: "w5 = w'" by (simp add: return_def)
  have n4: "next_id w4 = Suc (Suc (next_id w))"
    by (simp add: w4 w3 inserted_fields)
  then have pos: "next_id w4 \<noteq> 0" by simp
  from t pos obtain stream followUp where
    st: "chat_stream env (answer_request (database_input msg q ?docs)) = Inr stream"
    and "chat_create env (followup_request (database_input msg q ?docs)) = Inr followUp"
    and "r = processing_response"
    and j: "journal w5 = journal w4 @ answer_events (next_id w4) (parts stream) followUp"
    and c: "chat_log w5 = chat_log w4
       @ [answer_request (database_input msg q ?docs),
          followup_request (database_input msg q ?docs)]"
    by (rule trigger_success)
  have "journal w' = journal w
       @ [Inserted (next_id w) (Sources (sourcesPayload q ?docs)),
          Inserted (Suc (next_id w))
            (VectorCreation (js ''Finished Retrieving Embeddings from Database.''))]
       @ answer_events (Suc (Suc (next_id w))) (parts stream) followUp"
    using j n4 by (simp add: w5 [symmetric] w4 w3 inserted_fields)
  moreover have "chat_log w' = chat_log w
       @ [answer_request (database_input msg q ?docs),
          followup_request (database_input msg q ?docs)]"
    using c by (simp add: w5 [symmetric] w4 w3 inserted_fields)
  ultimately show thesis using q rows st by (intro that)
qed


lemma web_mode_success:
  assumes run: "web_mode env msg w = (Inr u, w')"
  obtains normalizedData and scanned :: scan and stream followUp where
    "chat_stream env (answer_request (web_input env msg (topResult scanned))) = Inr stream"
    "journal w' = journal w
       @ [Inserted (next_id w) (Sources normalizedData),
          Inserted (Suc (next_id w)) (VectorCreation (js ''Finished Scanning Sources.''))]
       @ answer_events (Suc (Suc (next_id w))) (parts stream) followUp"
proof -
  from run obtain rephrasedMessage w1 where
    e: "rephraseInput env msg w = (Inr rephrasedMessage, w1)"
    and rest1: "await (external (brave_call env rephrasedMessage)) (\<lambda>docs.
     await (external (normalizeData env docs)) (\<lambda>normalizedData.
     await (sendPayload (Sources normalizedData)) (\<lambda>sent.
     await (external (scan_sources env msg normalizedData)) (\<lambda>scanned.
     await (sendPayload (VectorCreation (js ''Finished Scanning Sources.''))) (\<lambda>sent.
     await (triggerLLMAndFollowup env (web_input env msg (topResult scanned)))
       (\<lambda>answered. return ())))))) w1 = (Inr u, w')"
    unfolding web_mode_def by (rule await_Inr)
  from e have w1: "journal w1 = journal w" "next_id w1 = next_id w"
    by (auto simp add: rephraseInput_def chat_completions_create_def)
  from rest1 obtain docs w2 where
    b: "external (brave_call env rephrasedMessage) w1 = (Inr docs, w2)"
    and rest2: "await (external (normalizeData env docs)) (\<lambda>normalizedData.
     await (sendPayload (Sources normalizedData)) (\<lambda>sent.
     await (external (scan_sources env msg normalizedData)) (\<lambda>scanned.
     await (sendPayload (VectorCreation (js ''Finished Scanning Sources.''))) (\<lambda>sent.
     await (triggerLLMAndFollowup env (web_input env msg (topResult scanned)))
       (\<lambda>answered. return ()))))) w2 = (Inr u, w')"
    by (rule await_Inr)
  from b have w2: "w2 = w1" by (simp add: external_def)
  from rest2 obtain normalizedData w3 where
    n: "external (normalizeData env docs) w2 = (Inr normalizedData, w3)"
    and rest3: "await (sendPayload (Sources normalizedData)) (\<lambda>sent.
     await (external (scan_sources env msg normalizedData)) (\<lambda>scanned.
     await (sendPayload (VectorCreation (js ''Finished Scanning Sources.''))) (\<lambda>sent.
     await (triggerLLMAndFollowup env (web_input env msg (topResult scanned)))
       (\<lambda>answered. return ())))) w3 = (Inr u, w')"
    by (rule await_Inr)
  from n have w3: "w3 = w2" by (simp add: external_def)
  from rest3 obtain i w4 where p1: "sendPayload (Sources normalizedData) w3 = (Inr i, w4)"
    and rest4: "await (external (scan_sources env msg normalizedData)) (\<lambda>scanned.
     await (sendPayload (VectorCreation (js ''Finished Scanning Sources.''))) (\<lambda>sent.
     await (triggerLLMAndFollowup env (web_input env msg (topResult scanned)))
       (\<lambda>answered. return ()))) w4 = (Inr u, w')"
    by (rule await_Inr)
  from sendPayload_Inr [OF p1] have w4: "w4 = inserted (Sources normalizedData) w3" by simp
  from rest4 obtain scanned w5 where
    sc: "external (scan_sources env msg normalizedData) w4 = (Inr scanned, w5)"
    and rest5: "await (sendPayload (VectorCreation (js ''Finished Scanning Sources.''))) (\<lambda>sent.
     await (triggerLLMAndFollowup env (web_input env msg (topResult scanned)))
       (\<lambda>answered. return ())) w5 = (Inr u, w')"
    by (rule await_Inr)
  from sc have w5: "w5 = w4" by (simp add: external_def)
  from rest5 obtain j w6 where
    p2: "sendPayload (VectorCreation (js ''Finished Scanning Sources.'')) w5 = (Inr j, w6)"
    and rest6: "await (triggerLLMAndFollowup env (web_input env msg (topResult scanned)))
       (\<lambda>answered. return ()) w6 = (Inr u, w')"
    by (rule await_Inr)
  from sendPayload_Inr [OF p2]
  have w6: "w6 = inserted (VectorCreation (js ''Finished Scanning Sources.'')) w5" by simp
  from rest6 obtain r w7 where
    t: "triggerLLMAndFollowup env (web_input env msg (topResult scanned)) w6 = (Inr r, w7)"
    and rest7: "return () w7 = (Inr u, w')"
    by (rule await_Inr)
  from rest7 have w7: "w7 = w'" by (simp add: return_def)
  have n6: "next_id w6 = Suc (Suc (next_id w))"
    by (simp add: w6 w5 w4 w3 w2 w1 inserted_fields)
  then have pos: "next_id w6 \<noteq> 0" by simp
  from t pos obtain stream followUp where
    st: "chat_stream env (answer_request (web_input env msg (topResult scanned))) = Inr stream"
    and "chat_create env (followup_request (web_input env msg (topResult scanned))) = Inr followUp"
    and "r = processing_response"
    and j: "journal w7 = journal w6 @ answer_events (next_id w6) (parts stream) followUp"
    and "chat_log w7 = chat_log w6
       @ [answer_request (web_input env msg (topResult scanned)),
          followup_request (web_input env msg (topResult scanned))]"
    by (rule trigger_success)
  have "journal w' = journal w
       @ [Inserted (next_id w) (Sources normalizedData),
          Inserted (Suc (next_id w)) (VectorCreation (js ''Finished Scanning Sources.''))]
       @ answer_events (Suc (Suc (next_id w))) (parts stream) followUp"
    using j n6 by (simp add: w7 [symmetric] w6 w5 w4 w3 w2 w1 inserted_fields)
  with st show thesis by (rule that)
qed

lemma search_success:
  assumes run: "searchEngineForSources env msg kind w = (Inr u, w')"
  obtains srcs notice ps followUp where
    "journal w' = journal w
       @ [Inserted (next_id w) (Sources srcs), Inserted (Suc (next_id w)) (VectorCreation notice)]
       @ answer_events (Suc (Suc (next_id w))) ps followUp"
proof (cases "kind = Some (js ''database'')")
  case True
  with run have "database_mode env msg w = (Inr u, w')"
    by (simp add: searchEngineForSources_def)
  then show thesis
    by (rule database_mode_success) (rule that)
next
  case False
  with run have "web_mode env msg w = (Inr u, w')"
    by (simp add: searchEngineForSources_def)
  then show thesis
    by (rule web_mode_success) (rule that)
qed

lemma POST_try_success:
  assumes run: "POST_try env w = (Inr r, w')"
  obtains req srcs notice ps followUp where
    "request_json env = Inr req"
    "r = processing_response"
    "journal w' = journal w
       @ [Inserted (next_id w) (Query (message req)),
          Inserted (Suc (next_id w)) (Sources srcs),
          Inserted (Suc (Suc (next_id w))) (VectorCreation notice)]
       @ answer_events (Suc (Suc (Suc (next_id w)))) ps followUp"
proof -
  from run obtain req w1 where e: "external (request_json env) w = (Inr req, w1)"
    and rest1: "await (sendPayload (Query (message req))) (\<lambda>sent.
     await (searchEngineForSources env (message req) (embeddingSource req)) (\<lambda>found.
     return processing_response)) w1 = (Inr r, w')"
    unfolding POST_try_def by (rule await_Inr)
  from e have req: "request_json env = Inr req" and w1: "w1 = w"
    by (simp_all add: external_def)
  from rest1 obtain i w2 where p: "sendPayload (Query (message req)) w1 = (Inr i, w2)"
    and rest2: "await (searchEngineForSources env (message req) (embeddingSource req))
      (\<lambda>found. return processing_response) w2 = (Inr r, w')"
    by (rule await_Inr)
  from sendPayload_Inr [OF p] w1 have w2: "w2 = inserted (Query (message req)) w" by simp
  from rest2 obtain u w3 where
    s: "searchEngineForSources env (message req) (embeddingSource req) w2 = (Inr u, w3)"
    and rest3: "return processing_response w3 = (Inr r, w')"
    by (rule await_Inr)
  from rest3 have r: "r = processing_response" and w3: "w3 = w'"
    by (simp_all add: return_def)
  from s obtain srcs notice ps followUp where
    j: "journal w3 = journal w2
       @ [Inserted (next_id w2) (Sources srcs), Inserted (Suc (next_id w2)) (VectorCreation notice)]
       @ answer_events (Suc (Suc (next_id w2))) ps followUp"
    by (rule search_success)
  have "journal w' = journal w
       @ [Inserted (next_id w) (Query (message req)),
          Inserted (Suc (next_id w)) (Sources srcs),
          Inserted (Suc (Suc (next_id w))) (VectorCreation notice)]
       @ answer_events (Suc (Suc (Suc (next_id w)))) ps followUp"
    using j by (simp add: w3 [symmetric] w2 inserted_fields)
  with req r show thesis by (rule that)
qed

lemma responses_differ: "processing_response \<noteq> error_response"
  by (simp add: processing_response_def error_response_def)

lemma POST_eq:
  "POST env w =
     (case POST_try env w of (Inl e, w') \<Rightarrow> (Inr error_response, w') | (Inr r, w') \<Rightarrow> (Inr r, w'))"
  by (simp add: POST_def try_catch_def return_def split: prod.splits sum.splits)


text \<open>
  C5. For every request that the handler answers with \<open>Processing request\<close>, in
  either mode, the writes that reached the store are, in this order: the Query payload,
  the Sources payload, the VectorCreation payload, the empty GPT row, the Heading
  payload, the updates of that GPT row (one for each part of the stream that carries
  content, possibly none), and the FollowUp payload last.
\<close>

theorem payloads_in_fixed_order:
  assumes "fst (POST env w) = Inr processing_response"
  shows "\<exists>req srcs notice ps followUp.
           request_json env = Inr req
           \<and> journal (snd (POST env w)) = journal w
               @ [Inserted (next_id w) (Query (message req)),
                  Inserted (next_id w + 1) (Sources srcs),
                  Inserted (next_id w + 2) (VectorCreation notice),
                  Inserted (next_id w + 3) (GPT []),
                  Inserted (next_id w + 4) (Heading (js ''Answer''))]
               @ map (\<lambda>k. Updated (next_id w + 3) (GPT (received_so_far ps k))) (carrying ps)
               @ [Inserted (next_id w + 5) (FollowUp followUp)]"
proof -
  obtain x w' where t: "POST_try env w = (x, w')" by (cases "POST_try env w")
  with assms obtain r where x: "x = Inr r" and w': "snd (POST env w) = w'"
    by (cases x) (simp_all add: POST_eq responses_differ [symmetric])
  from t x have "POST_try env w = (Inr r, w')" by simp
  then obtain req srcs notice ps followUp where
    "request_json env = Inr req"
    "r = processing_response"
    "journal w' = journal w
       @ [Inserted (next_id w) (Query (message req)),
          Inserted (Suc (next_id w)) (Sources srcs),
          Inserted (Suc (Suc (next_id w))) (VectorCreation notice)]
       @ answer_events (Suc (Suc (Suc (next_id w)))) ps followUp"
    by (rule POST_try_success)
  then have "request_json env = Inr req
           \<and> journal (snd (POST env w)) = journal w
               @ [Inserted (next_id w) (Query (message req)),
                  Inserted (next_id w + 1) (Sources srcs),
                  Inserted (next_id w + 2) (VectorCreation notice),
                  Inserted (next_id w + 3) (GPT []),
                  Inserted (next_id w + 4) (Heading (js ''Answer''))]
               @ map (\<lambda>k. Updated (next_id w + 3) (GPT (received_so_far ps k))) (carrying ps)
               @ [Inserted (next_id w + 5) (FollowUp followUp)]"
    by (simp add: w' answer_events_def eval_nat_numeral)
  then show ?thesis by blast
qed

text \<open>
  A request in web-search mode for which the search finds nothing, with services that
  answer every call.
\<close>

definition greeting :: request_body where
  "greeting = \<lparr>message = js ''hi'', embeddingSource = None\<rparr>"

definition answering :: services where
  "answering = no_services
     \<lparr>request_json := Inr greeting,
      chat_create := (\<lambda>r. Inr (js ''ok'')),
      chat_stream := (\<lambda>r. Inr hello_stream),
      brave_call := (\<lambda>q. Inr (js ''[]'')),
      JSON_parse := (\<lambda>s. Inr [])\<rparr>"

lemma greeting_journal:
  "POST answering empty_world =
     (Inr processing_response,
      \<lparr>table = [(1, Query (js ''hi'')), (2, Sources []),
                (3, VectorCreation (js ''Finished Scanning Sources.'')),
                (4, GPT (js ''Hello'')), (5, Heading (js ''Answer'')), (6, FollowUp (js ''ok''))],
       next_id = 7, db_errors = [],
       journal = [Inserted 1 (Query (js ''hi'')), Inserted 2 (Sources []),
                  Inserted 3 (VectorCreation (js ''Finished Scanning Sources.'')),
                  Inserted 4 (GPT []), Inserted 5 (Heading (js ''Answer'')),
                  Updated 4 (GPT (js ''Hel'')), Updated 4 (GPT (js ''Hello'')),
                  Inserted 6 (FollowUp (js ''ok''))],
       chat_log = [rephrase_request (js ''hi''),
                   answer_request (web_input answering (js ''hi'') []),
                   followup_request (web_input answering (js ''hi'') [])]\<rparr>)"
  by (simp add: POST_eq POST_try_def searchEngineForSources_def web_mode_def
      triggerLLMAndFollowup_def getGPTResults_def generateFollowup_def rephraseInput_def
      normalizeData_def scan_sources_def successful_def slice0_def
      await_def external_def chat_completions_stream_def chat_completions_create_def
      createRow_eq sendPayload_eq updateRow_eq return_def answering_def greeting_def
      no_services_def hello_stream_def empty_world_def db_fails_def inserted_def updated_def
      db_answered_def truthy_def delta_def)
     (simp add: js_def)

theorem payloads_in_fixed_order_witness:
  "fst (POST answering empty_world) = Inr processing_response
   \<and> (\<exists>req srcs notice ps followUp.
           request_json answering = Inr req
           \<and> journal (snd (POST answering empty_world)) = journal empty_world
               @ [Inserted (next_id empty_world) (Query (message req)),
                  Inserted (next_id empty_world + 1) (Sources srcs),
                  Inserted (next_id empty_world + 2) (VectorCreation notice),
                  Inserted (next_id empty_world + 3) (GPT []),
                  Inserted (next_id empty_world + 4) (Heading (js ''Answer''))]
               @ map (\<lambda>k. Updated (next_id empty_world + 3) (GPT (received_so_far ps k)))
                   (carrying ps)
               @ [Inserted (next_id empty_world + 5) (FollowUp followUp)])
   \<and> journal (snd (POST answering empty_world))
       = [Inserted 1 (Query (js ''hi'')), Inserted 2 (Sources []),
          Inserted 3 (VectorCreation (js ''Finished Scanning Sources.'')),
          Inserted 4 (GPT []), Inserted 5 (Heading (js ''Answer'')),
          Updated 4 (GPT (js ''Hel'')), Updated 4 (GPT (js ''Hello'')),
          Inserted 6 (FollowUp (js ''ok''))]"
proof -
  have ok: "fst (POST answering empty_world) = Inr processing_response"
    by (simp add: greeting_journal)
  from payloads_in_fixed_order [OF ok] ok show ?thesis
    by (simp add: greeting_journal)
qed


section \<open>The ranking of the database mode\<close>













section \<open>The fan-out of the web-search mode\<close>

text \<open>What one search-result item contributes to the results, whatever the counter.\<close>

definition item_result :: "services \<Rightarrow> js_string \<Rightarrow> source \<Rightarrow> search_hit list option" where
  "item_result env msg item =
     (if timer_first env (link item) then None
      else (case fetchPageContent env (link item) of
              Inl error \<Rightarrow> None
            | Inr htmlContent \<Rightarrow>
                if length htmlContent < 250 then None
                else (case fromTexts env htmlContent (link item) of
                        Some error \<Rightarrow> None
                      | None \<Rightarrow>
                          (case similaritySearch env htmlContent (link item) msg of
                             Inl error \<Rightarrow> None
                           | Inr found \<Rightarrow> Some found))))"

lemma fetchAndProcess_result:
  "fst (fetchAndProcess env msg item n) = Inr (item_result env msg item)"
  by (simp add: fetchAndProcess_def fetchAndProcess_try_def Promise_race_def item_result_def
      split: sum.splits option.splits)

lemma map_counting_results:
  "fst (map_counting (fetchAndProcess env msg) items n)
     = map (\<lambda>item. Inr (item_result env msg item)) items"
proof (induction items arbitrary: n)
  case Nil
  show ?case by simp
next
  case (Cons item items)
  obtain y n' where f: "fetchAndProcess env msg item n = (y, n')"
    by (cases "fetchAndProcess env msg item n")
  obtain ys n'' where m: "map_counting (fetchAndProcess env msg) items n' = (ys, n'')"
    by (cases "map_counting (fetchAndProcess env msg) items n'")
  from f have "y = Inr (item_result env msg item)"
    using fetchAndProcess_result [of env msg item n] by simp
  moreover from m have "ys = map (\<lambda>item. Inr (item_result env msg item)) items"
    using Cons.IH [of n'] by simp
  ultimately show ?case
    using f m by simp
qed

lemma Promise_all_resolved: "Promise_all (map (\<lambda>x. Inr (f x)) xs) = Inr (map f xs)"
  by (induction xs) simp_all

lemma scan_sources_results:
  "\<exists>sc. scan_sources env msg items = Inr sc
        \<and> results sc = map (item_result env msg) items
        \<and> successfulResults sc = successful (map (item_result env msg) items)
        \<and> topResult sc =
            (if length (successful (map (item_result env msg) items)) > 4
             then slice0 4 (successful (map (item_result env msg) items))
             else successful (map (item_result env msg) items))"
proof -
  obtain ps vc where m: "map_counting (fetchAndProcess env msg) items 0 = (ps, vc)"
    by (cases "map_counting (fetchAndProcess env msg) items 0")
  then have "ps = map (\<lambda>item. Inr (item_result env msg item)) items"
    using map_counting_results [of env msg items 0] by simp
  with m show ?thesis
    by (simp add: scan_sources_def Promise_all_resolved)
qed

lemma length_successful: "length (successful rs) \<le> length rs"
  by (induction rs) (simp_all add: successful_def split: option.splits)

lemma successful_members: "set (successful rs) = {found. Some found \<in> set rs}"
  by (induction rs) (auto simp add: successful_def split: option.splits)


lemma collapse_no_space: "\<forall>c\<in>set s. \<not> is_space c \<Longrightarrow> collapse s = s"
  by (induction s) simp_all

lemma trim_no_space: "\<forall>c\<in>set s. \<not> is_space c \<Longrightarrow> trim s = s"
proof -
  assume a: "\<forall>c\<in>set s. \<not> is_space c"
  then have "dropWhile is_space s = s"
    by (cases s) simp_all
  moreover from a have "dropWhile is_space (rev s) = rev s"
    by (cases "rev s") (simp, metis dropWhile.simps(2) list.set_intros(1) set_rev)
  ultimately show ?thesis by (simp add: trim_def)
qed



text \<open>
  Services for the web-search mode: the page \<open>t\<close> loses the race against the timer,
  the fetch of \<open>e\<close> throws, the page \<open>s\<close> is short, the vector store of \<open>p\<close>
  cannot be built, and every other page has 250 characters of text and one search hit.
\<close>

definition long_page :: "node list" where
  "long_page =
     [Element ''html''
        [Element ''head'' [Element ''title'' [Text (js ''T'')]],
         Element ''body'' [Element ''p'' [Text (replicate 250 0x61)]]]]"

definition short_page :: "node list" where
  "short_page = [Element ''html'' [Element ''body'' [Text (js ''tiny'')]]]"

definition browsing :: services where
  "browsing = no_services
     \<lparr>JSON_parse := (\<lambda>s. Inr
        [\<lparr>doc_title = Some (js ''A''), doc_link = Some (js ''t'')\<rparr>,
         \<lparr>doc_title = None, doc_link = Some (js ''n'')\<rparr>,
         \<lparr>doc_title = Some (js ''B''), doc_link = Some (js ''search.brave.com/x'')\<rparr>,
         \<lparr>doc_title = Some (js ''C''), doc_link = Some (js ''e'')\<rparr>,
         \<lparr>doc_title = Some (js ''D''), doc_link = Some (js ''s'')\<rparr>,
         \<lparr>doc_title = Some (js ''E''), doc_link = Some (js ''g'')\<rparr>,
         \<lparr>doc_title = Some (js ''F''), doc_link = Some (js ''h'')\<rparr>]),
      timer_first := (\<lambda>l. l = js ''t''),
      fetch_text := (\<lambda>l. if l = js ''e'' then Inl FetchError else Inr l),
      cheerio_load := (\<lambda>h. if h = js ''s'' then short_page else long_page),
      fromTexts := (\<lambda>c l. if l = js ''p'' then Some ApiError else None),
      similaritySearch := (\<lambda>c l m. Inr [\<lparr>pageContent = js ''hit'', annotationPosition = l\<rparr>])\<rparr>"

lemma extract_long_page: "extractMainContent (\<lambda>h. long_page) h = replicate 250 0x61"
proof -
  have "\<forall>c\<in>set (replicate 250 (0x61 :: 16 word)). \<not> is_space c"
    by (simp add: is_space_def)
  then have "trim (collapse (replicate 250 (0x61 :: 16 word))) = replicate 250 0x61"
    by (simp only: collapse_no_space trim_no_space)
  then show ?thesis
    by (simp add: extractMainContent_def long_page_def remove_elements_def removed_tags_def
        select_def text_of_def)
qed

lemma extract_short_page: "extractMainContent (\<lambda>h. short_page) h = js ''tiny''"
proof -
  have "\<forall>c\<in>set (js ''tiny''). \<not> is_space c"
    by (simp add: is_space_def js_def)
  then have "trim (collapse (js ''tiny'')) = js ''tiny''"
    by (simp only: collapse_no_space trim_no_space)
  then show ?thesis
    by (simp add: extractMainContent_def short_page_def remove_elements_def removed_tags_def
        select_def text_of_def)
qed

lemma browsing_pages:
  "fetchPageContent browsing (js ''e'') = Inl FetchError"
  "fetchPageContent browsing (js ''s'') = Inr (js ''tiny'')"
  "fetchPageContent browsing (js ''p'') = Inr (replicate 250 0x61)"
  "fetchPageContent browsing (js ''g'') = Inr (replicate 250 0x61)"
proof -
  have l: "cheerio_load browsing = (\<lambda>h. if h = js ''s'' then short_page else long_page)"
    by (simp add: browsing_def no_services_def)
  have f: "fetch_text browsing = (\<lambda>l. if l = js ''e'' then Inl FetchError else Inr l)"
    by (simp add: browsing_def no_services_def)
  have d: "js ''s'' \<noteq> js ''e''" "js ''p'' \<noteq> js ''e''" "js ''g'' \<noteq> js ''e''"
    "js ''p'' \<noteq> js ''s''" "js ''g'' \<noteq> js ''s''"
    by (simp_all add: js_def)
  have long: "extractMainContent (\<lambda>h. if h = js ''s'' then short_page else long_page) h
      = replicate 250 0x61" if "h \<noteq> js ''s''" for h
    using that extract_long_page [of h] by (simp add: extractMainContent_def)
  have short: "extractMainContent (\<lambda>h. if h = js ''s'' then short_page else long_page) (js ''s'')
      = js ''tiny''"
    using extract_short_page [of "js ''s''"] by (simp add: extractMainContent_def)
  show "fetchPageContent browsing (js ''e'') = Inl FetchError"
    by (simp add: fetchPageContent_def f)
  show "fetchPageContent browsing (js ''s'') = Inr (js ''tiny'')"
    using d by (simp add: fetchPageContent_def f l short)
  show "fetchPageContent browsing (js ''p'') = Inr (replicate 250 0x61)"
    using d by (simp add: fetchPageContent_def f l long)
  show "fetchPageContent browsing (js ''g'') = Inr (replicate 250 0x61)"
    using d by (simp add: fetchPageContent_def f l long)
qed

lemma browsing_results:
  "item_result browsing m \<lparr>title = a, link = js ''t''\<rparr> = None"
  "item_result browsing m \<lparr>title = a, link = js ''e''\<rparr> = None"
  "item_result browsing m \<lparr>title = a, link = js ''s''\<rparr> = None"
  "item_result browsing m \<lparr>title = a, link = js ''p''\<rparr> = None"
  "item_result browsing m \<lparr>title = a, link = js ''g''\<rparr>
     = Some [\<lparr>pageContent = js ''hit'', annotationPosition = js ''g''\<rparr>]"
proof -
  have t: "timer_first browsing = (\<lambda>l. l = js ''t'')"
    and f: "fromTexts browsing = (\<lambda>c l. if l = js ''p'' then Some ApiError else None)"
    and s: "similaritySearch browsing
        = (\<lambda>c l m. Inr [\<lparr>pageContent = js ''hit'', annotationPosition = l\<rparr>])"
    by (simp_all add: browsing_def no_services_def)
  have d: "js ''e'' \<noteq> js ''t''" "js ''s'' \<noteq> js ''t''" "js ''p'' \<noteq> js ''t''"
    "js ''g'' \<noteq> js ''t''" "js ''g'' \<noteq> js ''p''" "length (js ''tiny'') < 250"
    by (simp_all add: js_def)
  show "item_result browsing m \<lparr>title = a, link = js ''t''\<rparr> = None"
    by (simp add: item_result_def t)
  show "item_result browsing m \<lparr>title = a, link = js ''e''\<rparr> = None"
    using d by (simp add: item_result_def t browsing_pages)
  show "item_result browsing m \<lparr>title = a, link = js ''s''\<rparr> = None"
    using d by (simp add: item_result_def t browsing_pages)
  show "item_result browsing m \<lparr>title = a, link = js ''p''\<rparr> = None"
    using d by (simp add: item_result_def t f browsing_pages)
  show "item_result browsing m \<lparr>title = a, link = js ''g''\<rparr>
     = Some [\<lparr>pageContent = js ''hit'', annotationPosition = js ''g''\<rparr>]"
    using d by (simp add: item_result_def t f s browsing_pages)
qed




text \<open>
  C10. In web-search mode at most four search results are normalized, namely the first
  four that have a title and a link that does not contain \<open>brave.com\<close>; a fetched page
  whose extracted content is shorter than 250 characters yields \<open>null\<close> (and leaves
  the counter alone), and \<open>null\<close> is never among the successful results. So the
  successful results of the normalized data are at most four, and \<open>topResult\<close> is
  \<open>successfulResults\<close>: the branch that slices is never taken.
\<close>

theorem at_most_four_processed:
  "(normalizeData env docs = Inr normalizedData \<longrightarrow>
      length normalizedData \<le> 4
      \<and> (\<exists>parsed. JSON_parse env docs = Inr parsed
            \<and> normalizedData = map to_source (take 4 (filter usable parsed)))
      \<and> (\<exists>sc. scan_sources env msg normalizedData = Inr sc
            \<and> successfulResults sc = successful (map (item_result env msg) normalizedData)
            \<and> length (successfulResults sc) \<le> 4
            \<and> topResult sc = successfulResults sc))
   \<and> (\<not> timer_first env (link item) \<and> fetchPageContent env (link item) = Inr htmlContent
        \<and> length htmlContent < 250 \<longrightarrow>
        fetchAndProcess env msg item n = (Inr None, n) \<and> item_result env msg item = None)
   \<and> set (successful rs) = {found. Some found \<in> set rs}"
proof (intro conjI impI)
  assume nd: "normalizeData env docs = Inr normalizedData"
  then obtain parsed where p: "JSON_parse env docs = Inr parsed"
    and n: "normalizedData = map to_source (take 4 (filter usable parsed))"
    by (cases "JSON_parse env docs") (auto simp add: normalizeData_def slice0_def)
  from n show four: "length normalizedData \<le> 4" by simp
  from p n show "\<exists>parsed. JSON_parse env docs = Inr parsed
            \<and> normalizedData = map to_source (take 4 (filter usable parsed))"
    by blast
  from scan_sources_results [of env msg normalizedData] obtain sc where
    sc: "scan_sources env msg normalizedData = Inr sc"
    and su: "successfulResults sc = successful (map (item_result env msg) normalizedData)"
    and tr: "topResult sc =
            (if length (successful (map (item_result env msg) normalizedData)) > 4
             then slice0 4 (successful (map (item_result env msg) normalizedData))
             else successful (map (item_result env msg) normalizedData))"
    by blast
  have "length (successful (map (item_result env msg) normalizedData)) \<le> length normalizedData"
    using length_successful [of "map (item_result env msg) normalizedData"] by simp
  with four have le: "length (successful (map (item_result env msg) normalizedData)) \<le> 4"
    by simp
  with sc su tr show "\<exists>sc. scan_sources env msg normalizedData = Inr sc
            \<and> successfulResults sc = successful (map (item_result env msg) normalizedData)
            \<and> length (successfulResults sc) \<le> 4
            \<and> topResult sc = successfulResults sc"
    by simp
next
  assume short: "\<not> timer_first env (link item) \<and> fetchPageContent env (link item) = Inr htmlContent
        \<and> length htmlContent < 250"
  then show "fetchAndProcess env msg item n = (Inr None, n)"
    by (simp add: fetchAndProcess_def fetchAndProcess_try_def Promise_race_def)
  from short show "item_result env msg item = None"
    by (simp add: item_result_def)
next
  show "set (successful rs) = {found. Some found \<in> set rs}"
    by (rule successful_members)
qed

lemma browsing_normalized:
  "normalizeData browsing docs =
     Inr [\<lparr>title = js ''A'', link = js ''t''\<rparr>, \<lparr>title = js ''C'', link = js ''e''\<rparr>,
          \<lparr>title = js ''D'', link = js ''s''\<rparr>, \<lparr>title = js ''E'', link = js ''g''\<rparr>]"
  by (simp add: normalizeData_def browsing_def no_services_def usable_def truthy_def
      to_source_def slice0_def js_def)

theorem at_most_four_processed_witness:
  "normalizeData browsing (js ''[]'') =
     Inr [\<lparr>title = js ''A'', link = js ''t''\<rparr>, \<lparr>title = js ''C'', link = js ''e''\<rparr>,
          \<lparr>title = js ''D'', link = js ''s''\<rparr>, \<lparr>title = js ''E'', link = js ''g''\<rparr>]
   \<and> \<not> timer_first browsing (js ''s'')
   \<and> fetchPageContent browsing (js ''s'') = Inr (js ''tiny'') \<and> length (js ''tiny'') < 250
   \<and> fetchAndProcess browsing (js ''q'') \<lparr>title = js ''D'', link = js ''s''\<rparr> 2 = (Inr None, 2)
   \<and> (\<exists>sc. scan_sources browsing (js ''q'')
              [\<lparr>title = js ''A'', link = js ''t''\<rparr>, \<lparr>title = js ''C'', link = js ''e''\<rparr>,
               \<lparr>title = js ''D'', link = js ''s''\<rparr>, \<lparr>title = js ''E'', link = js ''g''\<rparr>]
            = Inr sc
          \<and> successfulResults sc = [[\<lparr>pageContent = js ''hit'', annotationPosition = js ''g''\<rparr>]]
          \<and> topResult sc = successfulResults sc)"
proof -
  let ?nd = "[\<lparr>title = js ''A'', link = js ''t''\<rparr>, \<lparr>title = js ''C'', link = js ''e''\<rparr>,
          \<lparr>title = js ''D'', link = js ''s''\<rparr>, \<lparr>title = js ''E'', link = js ''g''\<rparr>]"
  let ?d = "\<lparr>title = js ''D'', link = js ''s''\<rparr>"
  have n: "normalizeData browsing (js ''[]'') = Inr ?nd"
    by (rule browsing_normalized)
  have t: "\<not> timer_first browsing (js ''s'')"
    by (simp add: browsing_def no_services_def js_def)
  have f: "fetchPageContent browsing (js ''s'') = Inr (js ''tiny'')"
    by (rule browsing_pages)
  have l: "length (js ''tiny'') < 250"
    by (simp add: js_def)
  note T = at_most_four_processed [of browsing "js ''[]''" ?nd "js ''q''" ?d "js ''tiny''" 2 "[]"]
  from T n have "\<exists>sc. scan_sources browsing (js ''q'') ?nd = Inr sc
            \<and> successfulResults sc = successful (map (item_result browsing (js ''q'')) ?nd)
            \<and> length (successfulResults sc) \<le> 4
            \<and> topResult sc = successfulResults sc"
    by blast
  moreover from T t f l have "fetchAndProcess browsing (js ''q'') ?d 2 = (Inr None, 2)"
    by simp
  ultimately show ?thesis
    using n t f l by (auto simp add: browsing_results successful_def)
qed

section \<open>The follow-up questions\<close>

text \<open>
  The format of the claim, \<open>{ "follow_up": [q1, q2, q3, q4] }\<close>, as a recogniser: an
  object with the one key \<open>follow_up\<close> whose value is an array of exactly four JSON
  strings, with any JSON white space between the tokens.
\<close>

definition json_ws :: "16 word \<Rightarrow> bool" where
  "json_ws c \<longleftrightarrow> c \<in> set [0x20, 0x09, 0x0A, 0x0D]"

definition token :: "js_string \<Rightarrow> js_string \<Rightarrow> js_string option" where
  "token lit s =
     (if take (length lit) (dropWhile json_ws s) = lit
      then Some (drop (length lit) (dropWhile json_ws s)) else None)"

fun string_rest :: "js_string \<Rightarrow> js_string option" where
  "string_rest [] = None"
| "string_rest [c] = (if c = 0x22 then Some [] else None)"
| "string_rest (c # e # rest) =
     (if c = 0x22 then Some (e # rest)
      else if c = 0x5C then string_rest rest
      else string_rest (e # rest))"

definition json_string :: "js_string \<Rightarrow> js_string option" where
  "json_string s = Option.bind (token [0x22] s) string_rest"

definition is_follow_up_json :: "js_string \<Rightarrow> bool" where
  "is_follow_up_json s =
     (Option.bind (token (js ''{'') s) (\<lambda>s.
      Option.bind (token ([0x22] @ js ''follow_up'' @ [0x22]) s) (\<lambda>s.
      Option.bind (token (js '':'') s) (\<lambda>s.
      Option.bind (token (js ''['') s) (\<lambda>s.
      Option.bind (json_string s) (\<lambda>s.
      Option.bind (token (js '','') s) (\<lambda>s.
      Option.bind (json_string s) (\<lambda>s.
      Option.bind (token (js '','') s) (\<lambda>s.
      Option.bind (json_string s) (\<lambda>s.
      Option.bind (token (js '','') s) (\<lambda>s.
      Option.bind (json_string s) (\<lambda>s.
      Option.bind (token (js '']'') s) (\<lambda>s.
      Option.bind (token (js ''}'') s) (\<lambda>s.
      if dropWhile json_ws s = [] then Some () else None))))))))))))) = Some ())"

lemma example_in_format: "is_follow_up_json follow_up_example"
  by (simp add: is_follow_up_json_def follow_up_example_def json_string_def token_def
      json_ws_def js_def)

definition apology :: js_string where
  "apology = js ''Sorry, I cannot help with that.''"

definition refusing :: services where
  "refusing = no_services\<lparr>chat_create := (\<lambda>r. Inr apology)\<rparr>"

text \<open>
  C7, as stated, fails: the function returns what the model answers, and the model may
  answer anything.
\<close>

theorem followup_unchecked_counterexample:
  "fst (generateFollowup refusing (js ''q'') empty_world) = Inr apology
   \<and> \<not> is_follow_up_json apology"
  by (simp add: generateFollowup_def chat_completions_create_def refusing_def no_services_def
      is_follow_up_json_def apology_def token_def json_ws_def js_def)

text \<open>
  C7, amended. For every input message, \<open>generateFollowup\<close> sends one request to the
  model \<open>gpt-4\<close>: the system prompt asks for 4 follow-up questions on the message in
  JSON format and shows the format \<open>{ "follow_up": [q1, q2, q3, q4] }\<close>, the user prompt
  asks to generate 4 follow-up questions. It returns the content of the completion as it
  is, or throws as the call does; it does not check the content.
\<close>

theorem generateFollowup_returns_completion:
  "generateFollowup env msg w
     = (chat_create env (followup_request msg), w\<lparr>chat_log := chat_log w @ [followup_request msg]\<rparr>)
   \<and> model (followup_request msg) = ''gpt-4''
   \<and> system_content (followup_request msg)
       = js ''You are a follow up answer generator and always respond with 4 follow up questions based on this input ''
         @ [0x22] @ msg @ [0x22] @ js '' in JSON format. i.e. '' @ follow_up_example
   \<and> is_follow_up_json follow_up_example
   \<and> user_content (followup_request msg)
       = js ''Generate 4 follow up questions based on this input '' @ [0x22] @ msg @ [0x22]"
  by (simp add: generateFollowup_def chat_completions_create_def followup_request_def
      example_in_format js_def)

section \<open>The extracted content of a page\<close>

text \<open>
  The words of the claim. The body text with the removed elements left out, read off the
  document in one pass: the text below a \<open>body\<close> element that is not inside a removed
  element, without what is inside removed elements.
\<close>

fun text_without :: "string list \<Rightarrow> node \<Rightarrow> js_string" where
  "text_without tags (Text s) = s"
| "text_without tags (Comment s) = []"
| "text_without tags (Element t cs) =
     (if t \<in> set tags then [] else concat (map (text_without tags) cs))"

fun body_text :: "string list \<Rightarrow> node \<Rightarrow> js_string" where
  "body_text tags (Element t cs) =
     (if t \<in> set tags then []
      else (if t = ''body'' then concat (map (text_without tags) cs) else [])
           @ concat (map (body_text tags) cs))"
| "body_text tags n = []"

text \<open>
  The maximal runs of characters that are not white space, in order; a string with no
  two white-space characters in a row; a string that starts, or ends, with white space.
\<close>

function words :: "js_string \<Rightarrow> js_string list" where
  "words s =
     (case dropWhile is_space s of
        [] \<Rightarrow> []
      | c # cs \<Rightarrow> (c # takeWhile (\<lambda>x. \<not> is_space x) cs)
                  # words (dropWhile (\<lambda>x. \<not> is_space x) cs))"
  by pat_completeness auto
termination
proof (relation "measure length")
  show "wf (measure length)" by simp
next
  fix s :: js_string and c cs
  assume "dropWhile is_space s = c # cs"
  then have "length (c # cs) \<le> length s"
    by (metis length_dropWhile_le)
  moreover have "length (dropWhile (\<lambda>x. \<not> is_space x) cs) \<le> length cs"
    by (rule length_dropWhile_le)
  ultimately show "(dropWhile (\<lambda>x. \<not> is_space x) cs, s) \<in> measure length"
    by simp
qed

definition starts_with_space :: "js_string \<Rightarrow> bool" where
  "starts_with_space s = (case s of [] \<Rightarrow> False | c # cs \<Rightarrow> is_space c)"

definition ends_with_space :: "js_string \<Rightarrow> bool" where
  "ends_with_space s = starts_with_space (rev s)"

fun no_double_space :: "js_string \<Rightarrow> bool" where
  "no_double_space [] = True"
| "no_double_space (c # cs) = (\<not> (is_space c \<and> starts_with_space cs) \<and> no_double_space cs)"

subsection \<open>Removal, selection and text\<close>

lemma tagged_remove_in: "tagged tags (remove_in tags n) = tagged tags n"
  by (cases n) simp_all

lemma text_in_remove_in:
  "text_without tags n = (if tagged tags n then [] else text_in (remove_in tags n))"
proof (induction n)
  case (Text s)
  show ?case by simp
next
  case (Comment s)
  show ?case by simp
next
  case (Element t cs)
  have "concat (map text_in (filter (\<lambda>c. \<not> tagged tags c) (map (remove_in tags) cs)))
      = concat (map (text_without tags) cs)"
    using Element.IH
  proof (induction cs)
    case Nil
    show ?case by simp
  next
    case (Cons c cs)
    then show ?case by (simp add: tagged_remove_in)
  qed
  then show ?case by simp
qed

lemma text_in_children:
  "concat (map text_in (filter (\<lambda>c. \<not> tagged tags c) (map (remove_in tags) cs)))
     = concat (map (text_without tags) cs)"
  by (induction cs) (simp_all add: tagged_remove_in text_in_remove_in)

lemma body_text_remove_in:
  "body_text tags n
     = (if tagged tags n then [] else concat (map text_in (select_in ''body'' (remove_in tags n))))"
proof (induction n)
  case (Text s)
  show ?case by simp
next
  case (Comment s)
  show ?case by simp
next
  case (Element t cs)
  have kids: "concat (map text_in (concat (map (select_in ''body'')
        (filter (\<lambda>c. \<not> tagged tags c) (map (remove_in tags) cs)))))
      = concat (map (body_text tags) cs)"
    using Element.IH
  proof (induction cs)
    case Nil
    show ?case by simp
  next
    case (Cons c cs)
    then show ?case by (simp add: tagged_remove_in)
  qed
  show ?case
    using kids by (simp add: text_in_children)
qed

lemma body_text_document:
  "text_of (select ''body'' (remove_elements tags doc)) = concat (map (body_text tags) doc)"
proof (induction doc)
  case Nil
  show ?case by (simp add: text_of_def select_def remove_elements_def)
next
  case (Cons n doc)
  then show ?case
    by (simp add: text_of_def select_def remove_elements_def tagged_remove_in
        body_text_remove_in [of tags n])
qed


subsection \<open>Collapsing and trimming\<close>

declare words.simps [simp del]

definition rtrim :: "js_string \<Rightarrow> js_string" where
  "rtrim t = rev (dropWhile is_space (rev t))"

lemma trim_rtrim: "trim s = rtrim (dropWhile is_space s)"
  by (simp add: trim_def rtrim_def)

lemma space_0x20: "is_space 0x20"
  by (simp add: is_space_def)

lemma collapse_word:
  "\<forall>x\<in>set w. \<not> is_space x \<Longrightarrow> collapse (w @ t) = w @ collapse t"
  by (induction w) simp_all

lemma dropWhile_collapse_start:
  "\<not> starts_with_space t \<Longrightarrow> dropWhile is_space (collapse t) = collapse t"
  by (cases t) (simp_all add: starts_with_space_def)

lemma not_starts_dropWhile: "\<not> starts_with_space (dropWhile is_space s)"
proof (cases "dropWhile is_space s")
  case Nil
  show ?thesis unfolding Nil by (simp add: starts_with_space_def)
next
  case (Cons c cs)
  then have "\<not> is_space c" by (metis hd_dropWhile list.sel(1) list.distinct(1))
  then show ?thesis unfolding Cons by (simp add: starts_with_space_def)
qed

lemma dropWhile_collapse:
  "dropWhile is_space (collapse s) = collapse (dropWhile is_space s)"
proof (cases s)
  case Nil
  then show ?thesis by simp
next
  case (Cons c cs)
  show ?thesis
  proof (cases "is_space c")
    case True
    with Cons show ?thesis
      by (simp add: space_0x20 dropWhile_collapse_start not_starts_dropWhile)
  next
    case False
    with Cons show ?thesis by simp
  qed
qed

lemma rtrim_append_spaces: "\<forall>x\<in>set b. is_space x \<Longrightarrow> rtrim (a @ b) = rtrim a"
proof -
  assume "\<forall>x\<in>set b. is_space x"
  then have "dropWhile is_space (rev b @ rev a) = dropWhile is_space (rev a)"
    by (intro dropWhile_append2) simp
  then show ?thesis by (simp add: rtrim_def)
qed

lemma rtrim_append_kept: "rtrim b \<noteq> [] \<Longrightarrow> rtrim (a @ b) = a @ rtrim b"
proof -
  assume "rtrim b \<noteq> []"
  then obtain x where "x \<in> set (rev b)" and "\<not> is_space x"
    by (auto simp add: rtrim_def dropWhile_eq_Nil_conv)
  then show ?thesis
    by (simp add: rtrim_def dropWhile_append1)
qed

lemma rtrim_word: "w \<noteq> [] \<Longrightarrow> \<forall>x\<in>set w. \<not> is_space x \<Longrightarrow> rtrim w = w"
proof -
  assume "w \<noteq> []" and a: "\<forall>x\<in>set w. \<not> is_space x"
  then obtain x xs where r: "rev w = x # xs" by (cases "rev w") simp_all
  then have "x \<in> set w" by (metis list.set_intros(1) set_rev)
  with a r show ?thesis by (simp add: rtrim_def)
qed

lemma rtrim_Nil_iff: "rtrim b = [] \<longleftrightarrow> (\<forall>x\<in>set b. is_space x)"
  by (auto simp add: rtrim_def dropWhile_eq_Nil_conv)

lemma words_Nil: "dropWhile is_space s = [] \<Longrightarrow> words s = []"
  by (subst words.simps) (simp del: dropWhile_eq_Nil_conv)

lemma words_Cons:
  "dropWhile is_space s = c # cs \<Longrightarrow>
   words s = (c # takeWhile (\<lambda>x. \<not> is_space x) cs) # words (dropWhile (\<lambda>x. \<not> is_space x) cs)"
  by (simp add: words.simps)

lemma words_proper: "list_all (\<lambda>w. w \<noteq> [] \<and> list_all (\<lambda>x. \<not> is_space x) w) (words s)"
proof (induction s rule: words.induct)
  case (1 s)
  show ?case
  proof (cases "dropWhile is_space s")
    case Nil
    then show ?thesis by (simp add: words_Nil)
  next
    case (Cons c cs)
    then have c: "\<not> is_space c" by (metis hd_dropWhile list.sel(1) list.distinct(1))
    have "list_all (\<lambda>x. \<not> is_space x) (takeWhile (\<lambda>x. \<not> is_space x) cs)"
      by (simp add: list_all_iff) (metis set_takeWhileD)
    with c Cons "1.IH" [OF Cons] show ?thesis
      by (simp add: words_Cons)
  qed
qed

lemma join_words_Nil_iff:
  "list_all (\<lambda>w. w \<noteq> [] \<and> list_all (\<lambda>x. \<not> is_space x) w) ws \<Longrightarrow>
   js_join [0x20] ws = [] \<longleftrightarrow> ws = []"
proof (cases ws)
  case Nil
  then show ?thesis by simp
next
  case (Cons w rest)
  assume "list_all (\<lambda>w. w \<noteq> [] \<and> list_all (\<lambda>x. \<not> is_space x) w) ws"
  with Cons show ?thesis by (cases rest) simp_all
qed

lemma base_words:
  assumes Nil: "dropWhile (\<lambda>x. \<not> is_space x) cs = []"
  shows "words (dropWhile (\<lambda>x. \<not> is_space x) cs) = []"
  unfolding Nil by (simp add: words_Nil)


lemma base_rtrim:
  assumes w: "\<forall>x\<in>set (c # takeWhile (\<lambda>x. \<not> is_space x) cs). \<not> is_space x"
  shows "rtrim (c # takeWhile (\<lambda>x. \<not> is_space x) cs) = c # takeWhile (\<lambda>x. \<not> is_space x) cs"
  using w by (simp add: rtrim_word)


lemma base_join:
  assumes ws: "words s = (c # takeWhile (\<lambda>x. \<not> is_space x) cs) # words (dropWhile (\<lambda>x. \<not> is_space x) cs)"
    and e: "words (dropWhile (\<lambda>x. \<not> is_space x) cs) = []"
  shows "c # takeWhile (\<lambda>x. \<not> is_space x) cs = js_join [0x20] (words s)"
  unfolding ws e by simp


lemma base_collapse:
  assumes Cons: "dropWhile is_space s = c # cs"
    and col: "collapse (c # cs) = (c # takeWhile (\<lambda>x. \<not> is_space x) cs) @ collapse (dropWhile (\<lambda>x. \<not> is_space x) cs)"
    and Nil: "dropWhile (\<lambda>x. \<not> is_space x) cs = []"
  shows "rtrim (collapse (dropWhile is_space s)) = rtrim (c # takeWhile (\<lambda>x. \<not> is_space x) cs)"
  unfolding Cons col Nil by simp


lemma rtrim_Nil_spaces:
  assumes "rtrim X = []"
  shows "\<forall>x\<in>set (0x20 # X). is_space x"
  using assms by (simp add: rtrim_Nil_iff space_0x20)

lemma rtrim_collapse_words:
  "rtrim (collapse (dropWhile is_space s)) = js_join [0x20] (words s)"
proof (induction s rule: words.induct)
  case (1 s)
  show ?case
  proof (cases "dropWhile is_space s")
    case Nil
    show ?thesis unfolding Nil words_Nil [OF Nil] by (simp add: rtrim_def)
  next
    case (Cons c cs)
    let ?w = "c # takeWhile (\<lambda>x. \<not> is_space x) cs"
    let ?rest = "dropWhile (\<lambda>x. \<not> is_space x) cs"
    from Cons have c: "\<not> is_space c" by (metis hd_dropWhile list.sel(1) list.distinct(1))
    have w: "\<forall>x\<in>set ?w. \<not> is_space x"
      using c by (auto dest: set_takeWhileD)
    have split: "c # cs = ?w @ ?rest" by simp
    have col: "collapse (c # cs) = ?w @ collapse ?rest"
      unfolding split using w by (rule collapse_word)
    note IH = "1.IH" [OF Cons]
    have ws: "words s = ?w # words ?rest" using Cons by (rule words_Cons)
    show ?thesis
    proof (cases ?rest)
      case Nil
      have "rtrim (collapse (dropWhile is_space s)) = ?w"
        using base_collapse [OF Cons col Nil] base_rtrim [OF w] by (rule trans)
      also have "\<dots> = js_join [0x20] (words s)"
        using ws base_words [OF Nil] by (rule base_join)
      finally show ?thesis .
    next
      case (Cons r rs)
      have r: "is_space r"
        using hd_dropWhile [of "\<lambda>x. \<not> is_space x" cs] by (simp add: Cons)
      let ?X = "collapse (dropWhile is_space ?rest)"
      have "collapse (r # rs) = 0x20 # collapse (dropWhile is_space (r # rs))"
        using r by simp
      then have cr: "collapse ?rest = 0x20 # ?X"
        by (simp only: Cons)
      have start: "collapse (dropWhile is_space s) = ?w @ 0x20 # ?X"
        by (simp only: \<open>dropWhile is_space s = c # cs\<close> col cr)
      show ?thesis
      proof (cases "words ?rest")
        case Nil
        with IH have "rtrim ?X = []" by (simp only: js_join.simps)
        then have "\<forall>x\<in>set (0x20 # ?X). is_space x"
          by (rule rtrim_Nil_spaces)
        then have "rtrim (?w @ 0x20 # ?X) = rtrim ?w"
          by (rule rtrim_append_spaces)
        also have "\<dots> = ?w" by (rule base_rtrim [OF w])
        also have "\<dots> = js_join [0x20] (words s)"
          using ws Nil by (rule base_join)
        finally show ?thesis by (simp only: start)
      next
        case (Cons y ys)
        have "list_all (\<lambda>w. w \<noteq> [] \<and> list_all (\<lambda>x. \<not> is_space x) w) (words ?rest)"
          by (rule words_proper)
        then have "js_join [0x20] (words ?rest) \<noteq> []"
          unfolding Cons by (simp add: join_words_Nil_iff)
        then have ne: "rtrim ?X \<noteq> []" unfolding IH .
        have "rtrim ((?w @ [0x20]) @ ?X) = (?w @ [0x20]) @ rtrim ?X"
          using ne by (rule rtrim_append_kept)
        also have "\<dots> = (?w @ [0x20]) @ js_join [0x20] (words ?rest)"
          by (simp only: IH)
        also have "\<dots> = js_join [0x20] (?w # words ?rest)"
          unfolding Cons by simp
        also have "\<dots> = js_join [0x20] (words s)"
          by (simp only: ws)
        finally have "rtrim (?w @ 0x20 # ?X) = js_join [0x20] (words s)"
          by simp
        then show ?thesis by (simp only: start)
      qed
    qed
  qed
qed

lemma trim_collapse_words: "trim (collapse s) = js_join [0x20] (words s)"
  by (simp add: trim_rtrim dropWhile_collapse rtrim_collapse_words)


subsection \<open>The shape of the result\<close>

lemma word_no_double: "list_all (\<lambda>x. \<not> is_space x) w \<Longrightarrow> no_double_space (w @ t) = no_double_space t"
  by (induction w) simp_all

lemma word_no_start: "w \<noteq> [] \<Longrightarrow> list_all (\<lambda>x. \<not> is_space x) w \<Longrightarrow> \<not> starts_with_space (w @ t)"
  by (cases w) (simp_all add: starts_with_space_def)

lemma word_no_end: "w \<noteq> [] \<Longrightarrow> list_all (\<lambda>x. \<not> is_space x) w \<Longrightarrow> \<not> ends_with_space w"
proof -
  assume "w \<noteq> []" and a: "list_all (\<lambda>x. \<not> is_space x) w"
  then obtain x xs where r: "rev w = x # xs" by (cases "rev w") simp_all
  then have "x \<in> set w" by (metis list.set_intros(1) set_rev)
  with a have "\<not> is_space x" by (simp add: list_all_iff)
  then show ?thesis by (simp add: ends_with_space_def starts_with_space_def r)
qed

lemma ends_append: "t \<noteq> [] \<Longrightarrow> ends_with_space (w @ t) = ends_with_space t"
  by (cases "rev t") (simp_all add: ends_with_space_def starts_with_space_def)

lemma join_shape:
  "list_all (\<lambda>w. w \<noteq> [] \<and> list_all (\<lambda>x. \<not> is_space x) w) ws \<Longrightarrow>
   no_double_space (js_join [0x20] ws)
   \<and> \<not> starts_with_space (js_join [0x20] ws)
   \<and> \<not> ends_with_space (js_join [0x20] ws)"
proof (induction ws)
  case Nil
  show ?case by (simp add: starts_with_space_def ends_with_space_def)
next
  case (Cons w ws)
  then have w: "w \<noteq> []" "list_all (\<lambda>x. \<not> is_space x) w"
    and rest: "list_all (\<lambda>w. w \<noteq> [] \<and> list_all (\<lambda>x. \<not> is_space x) w) ws"
    by simp_all
  show ?case
  proof (cases ws)
    case Nil
    from w have "no_double_space (w @ [])" by (simp only: word_no_double) simp
    moreover from w have "\<not> starts_with_space (w @ [])" by (rule word_no_start)
    moreover from w have "\<not> ends_with_space w" by (rule word_no_end)
    ultimately show ?thesis using Nil by simp
  next
    case (Cons y ys)
    let ?J = "js_join [0x20] ws"
    from Cons.IH rest have J: "no_double_space ?J" "\<not> starts_with_space ?J" "\<not> ends_with_space ?J"
      by simp_all
    from rest Cons have ne: "?J \<noteq> []"
      by (simp add: join_words_Nil_iff)
    have eq: "js_join [0x20] (w # ws) = w @ 0x20 # ?J"
      using Cons by simp
    have "no_double_space (w @ 0x20 # ?J)"
      using w J by (simp add: word_no_double)
    moreover have "\<not> starts_with_space (w @ 0x20 # ?J)"
      using w by (rule word_no_start)
    moreover have "\<not> ends_with_space (w @ 0x20 # ?J)"
      using ends_append [of ?J "w @ [0x20]"] ne J by simp
    ultimately show ?thesis by (simp only: eq) simp
  qed
qed

text \<open>
  A page with a script, a comment and runs of different white space, among them the
  no-break space \<open>0xA0\<close>.
\<close>

definition sample_page :: "node list" where
  "sample_page =
     [Element ''html''
        [Element ''head'' [Element ''title'' [Text (js ''Title'')]],
         Element ''body''
           [Text ([0x20, 0x0A] @ js ''Hello''), Element ''script'' [Text (js ''x = 1'')],
            Element ''p'' [Text ([0xA0, 0x09] @ js ''big'' @ [0x20, 0x20, 0x0A] @ js ''world'' @ [0x20])],
            Comment (js ''note''), Element ''footer'' [Text (js ''bye'')]]]]"

lemma sample_page_content:
  "extractMainContent (\<lambda>html. sample_page) h = js ''Hello big world''"
  by (simp add: extractMainContent_def sample_page_def remove_elements_def removed_tags_def
      select_def text_of_def trim_def is_space_def js_def)

text \<open>
  C6. For every HTML input, \<open>extractMainContent\<close> returns the text of the body without
  the script, style, head, nav, footer, iframe and img elements, as its maximal runs of
  characters that are not white space joined by single spaces: every run of white space
  is one space, there is none at the start or at the end, and no two white-space
  characters follow each other.
\<close>

theorem extractMainContent_normalized:
  "extractMainContent load html
     = js_join [0x20] (words (concat (map (body_text removed_tags) (load html))))
   \<and> removed_tags = [''script'', ''style'', ''head'', ''nav'', ''footer'', ''iframe'', ''img'']
   \<and> no_double_space (extractMainContent load html)
   \<and> \<not> starts_with_space (extractMainContent load html)
   \<and> \<not> ends_with_space (extractMainContent load html)"
proof -
  have eq: "extractMainContent load html
      = js_join [0x20] (words (concat (map (body_text removed_tags) (load html))))"
    by (simp only: extractMainContent_def body_text_document trim_collapse_words)
  have "no_double_space (js_join [0x20] (words (concat (map (body_text removed_tags) (load html)))))
    \<and> \<not> starts_with_space (js_join [0x20] (words (concat (map (body_text removed_tags) (load html)))))
    \<and> \<not> ends_with_space (js_join [0x20] (words (concat (map (body_text removed_tags) (load html)))))"
    by (rule join_shape) (rule words_proper)
  with eq show ?thesis
    by (simp only: removed_tags_def) simp
qed

end
